theory Spec2Isabelle
  imports Main "HOL-Library.Sublist"
begin

section \<open>Values of the host language\<close>

text \<open>
  The module under verification is \<open>setup-codeql\<close>. Its strings are modelled as
  \<^typ>\<open>string\<close>, one \<^typ>\<open>char\<close> per code unit (code units below 256), an optional
  string (\<open>string | undefined\<close>) as \<^typ>\<open>string option\<close>, and a thrown exception as
  the left injection of a sum. Calls to the logger only print; they are left out.
\<close>

datatype error =
  Error string
  | External string

text \<open>Truthiness of an optional string: \<open>undefined\<close> and the empty string are falsy.\<close>

definition truthy :: "string option \<Rightarrow> bool" where
  "truthy v = (case v of None \<Rightarrow> False | Some s \<Rightarrow> s \<noteq> [])"

section \<open>Version normalizer: the regular expressions\<close>

text \<open>
  In a regular expression without the \<open>s\<close> flag the dot matches every code unit but a
  line terminator. Of the four line terminators, line feed and carriage return are
  code units below 256 (the other two are U+2028 and U+2029).
\<close>

definition isLineTerminator :: "char \<Rightarrow> bool" where
  "isLineTerminator c = (c = CHR 0x0A \<or> c = CHR 0x0D)"

definition noLineTerminator :: "string \<Rightarrow> bool" where
  "noLineTerminator s = list_all (\<lambda>c. \<not> isLineTerminator c) s"

text \<open>
  \<open>/^codeql-bundle-(.*)$/\<close> without the \<open>m\<close> flag: the prefix stands at the start of the
  input, and the dots reach the end of the input. The result is the match array
  (the whole match and the group), or nothing.
\<close>

definition matchTagNameRegex :: "string \<Rightarrow> string list option" where
  "matchTagNameRegex tagName =
     (if prefix ''codeql-bundle-'' tagName
         \<and> noLineTerminator (drop (length ''codeql-bundle-'') tagName)
      then Some [tagName, drop (length ''codeql-bundle-'') tagName]
      else None)"

definition tryGetBundleVersionFromTagName :: "string \<Rightarrow> string option" where
  "tryGetBundleVersionFromTagName tagName =
     (case matchTagNameRegex tagName of
        None \<Rightarrow> None
      | Some m \<Rightarrow> if length m < 2 then None else Some (m ! 1))"

text \<open>
  \<open>.*\/\<close> tried at one position: the star takes the whole run of code units up to the
  first line terminator and gives code units back until a slash follows, so the
  group ends before the last slash of that run.
\<close>

definition greedyUpToSlash :: "string \<Rightarrow> string option" where
  "greedyUpToSlash rest =
     (let line = takeWhile (\<lambda>c. \<not> isLineTerminator c) rest in
      if CHR ''/'' \<in> set line
      then Some (rev (tl (dropWhile (\<lambda>c. c \<noteq> CHR ''/'') (rev line))))
      else None)"

text \<open>\<open>\/codeql-bundle-.*\/\<close> tried at the start of \<open>s\<close>; the result is what the dots took.\<close>

definition matchBundleSegmentAt :: "string \<Rightarrow> string option" where
  "matchBundleSegmentAt s =
     (if prefix ''/codeql-bundle-'' s
      then greedyUpToSlash (drop (length ''/codeql-bundle-'') s)
      else None)"

text \<open>An unanchored expression is tried at every position from the left; the first match wins.\<close>

fun regexSearch :: "(string \<Rightarrow> 'a option) \<Rightarrow> string \<Rightarrow> 'a option" where
  "regexSearch m [] = m []"
| "regexSearch m (c # cs) =
     (case m (c # cs) of Some r \<Rightarrow> Some r | None \<Rightarrow> regexSearch m cs)"

text \<open>\<open>/\/(codeql-bundle-.*)\//\<close>: the group starts after the first slash.\<close>

definition matchTagNameInUrlRegex :: "string \<Rightarrow> string list option" where
  "matchTagNameInUrlRegex url =
     (case regexSearch matchBundleSegmentAt url of
        None \<Rightarrow> None
      | Some x \<Rightarrow> Some [''/codeql-bundle-'' @ x @ ''/'', ''codeql-bundle-'' @ x])"

definition tryGetTagNameFromUrl :: "string \<Rightarrow> string option" where
  "tryGetTagNameFromUrl url =
     (case matchTagNameInUrlRegex url of
        None \<Rightarrow> None
      | Some m \<Rightarrow> if length m < 2 then None else Some (m ! 1))"

definition tryGetBundleVersionFromUrl :: "string \<Rightarrow> string option" where
  "tryGetBundleVersionFromUrl url =
     (case tryGetTagNameFromUrl url of
        None \<Rightarrow> None
      | Some tagName \<Rightarrow> tryGetBundleVersionFromTagName tagName)"

text \<open>\<open>/\/codeql-bundle-(.*)\//\<close>: the group is what the dots took.\<close>

definition matchVersionInUrlRegex :: "string \<Rightarrow> string list option" where
  "matchVersionInUrlRegex url =
     (case regexSearch matchBundleSegmentAt url of
        None \<Rightarrow> None
      | Some x \<Rightarrow> Some [''/codeql-bundle-'' @ x @ ''/'', x])"

definition getCodeQLURLVersion :: "string \<Rightarrow> error + string" where
  "getCodeQLURLVersion url =
     (case matchVersionInUrlRegex url of
        None \<Rightarrow> Inl (Error (''Malformed tools url: '' @ url @ ''. Version could not be inferred''))
      | Some m \<Rightarrow>
          if length m < 2
          then Inl (Error (''Malformed tools url: '' @ url @ ''. Version could not be inferred''))
          else Inr (m ! 1))"

section \<open>Collaborators and process-wide inputs\<close>

text \<open>
  Modelled from the spec: the type \<open>GitHubVariant\<close> of \<open>util\<close> is not part of the
  sources at hand; the spec names three deployment variants of the host platform, the
  public multi-tenant one, the enterprise server and the managed one.
\<close>

datatype GitHubVariant = DOTCOM | GHES | GHAE

datatype asset = Asset (asset_name: string) (asset_url: string)

record release =
  tag_name :: string
  assets :: "asset list"

text \<open>The fields \<open>auth\<close> and \<open>url\<close> of the API details.\<close>

record GitHubApiDetails =
  api_auth :: string
  api_url :: string

record diskSpaceInfo =
  free :: int
  size :: int

text \<open>
  Everything the module reads from or calls in its surroundings: the process, the
  environment, \<open>defaults.json\<close>, the helpers of \<open>util\<close> and \<open>actions-util\<close>, the
  package \<open>semver\<close>, the API client, the toolcache, the file system, the URL parser,
  the clock and the random identifier. A collaborator that can throw returns a sum.
  \<open>checkDiskSpace\<close> is asked six times in one download; its argument here is the
  number of the question, so that each answer can differ.
\<close>

record env =
  process_platform :: string
  isRunningLocalAction :: bool
  getRequiredEnvParam :: "string \<Rightarrow> error + string"
  GITHUB_DOTCOM_URL :: string
  defaults_cliVersion :: string
  defaults_bundleVersion :: string
  semver_valid :: "string \<Rightarrow> string option"
  semver_clean :: "string \<Rightarrow> string option"
  isGoodVersion :: "string \<Rightarrow> bool"
  getReleaseByTag :: "string option \<Rightarrow> string option \<Rightarrow> string option \<Rightarrow> error + release"
  request_codeql_bundle_find :: "string option \<Rightarrow> error + (string \<Rightarrow> nat option)"
  request_codeql_bundle_download :: "nat \<Rightarrow> error + string"
  toolcache_find :: "string \<Rightarrow> string \<Rightarrow> string"
  toolcache_findAllVersions :: "string \<Rightarrow> string list"
  fs_existsSync :: "string \<Rightarrow> bool"
  path_join :: "string \<Rightarrow> string \<Rightarrow> string"
  new_URL_search :: "string \<Rightarrow> error + string"
  searchParams_has :: "string \<Rightarrow> string \<Rightarrow> bool"
  uuidV4 :: string
  toolsDownloadDurationMs :: int
  checkDiskSpace :: "nat \<Rightarrow> error + diskSpaceInfo"
  toolcache_downloadTool ::
    "string \<Rightarrow> string \<Rightarrow> string option \<Rightarrow> (string \<times> string) list \<Rightarrow> error + string"
  toolcache_extractTar :: "string \<Rightarrow> error + string"
  toolcache_cacheDir :: "string \<Rightarrow> string \<Rightarrow> string \<Rightarrow> error + string"
  del :: "string \<Rightarrow> error + unit"

text \<open>A template literal prints \<open>undefined\<close> for a missing value.\<close>

definition render :: "string option \<Rightarrow> string" where
  "render v = (case v of None \<Rightarrow> ''undefined'' | Some s \<Rightarrow> s)"

text \<open>\<open>a && f(a)\<close> on an optional string: a falsy \<open>a\<close> is the result itself.\<close>

definition andThen :: "string option \<Rightarrow> (string \<Rightarrow> string option) \<Rightarrow> string option" where
  "andThen a f = (case a of None \<Rightarrow> None | Some s \<Rightarrow> if s = [] then Some [] else f s)"

text \<open>\<open>split\<close> at a separator: the pieces between its occurrences, at least one piece.\<close>

fun splitOn :: "char \<Rightarrow> string \<Rightarrow> string list" where
  "splitOn sep [] = [[]]"
| "splitOn sep (c # cs) =
     (if c = sep then [] # splitOn sep cs
      else case splitOn sep cs of
             [] \<Rightarrow> [[c]]
           | piece # pieces \<Rightarrow> (c # piece) # pieces)"

definition nth_opt :: "'a list \<Rightarrow> nat \<Rightarrow> 'a option" where
  "nth_opt xs i = (if i < length xs then Some (xs ! i) else None)"

section \<open>Candidate source enumerator and release asset locator\<close>

definition CODEQL_DEFAULT_ACTION_REPOSITORY :: string where
  "CODEQL_DEFAULT_ACTION_REPOSITORY = ''github/codeql-action''"

definition getCodeQLBundleName :: "env \<Rightarrow> string" where
  "getCodeQLBundleName E =
     (if process_platform E = ''win32'' then ''codeql-bundle-'' @ ''win64'' @ ''.tar.gz''
      else if process_platform E = ''linux'' then ''codeql-bundle-'' @ ''linux64'' @ ''.tar.gz''
      else if process_platform E = ''darwin'' then ''codeql-bundle-'' @ ''osx64'' @ ''.tar.gz''
      else ''codeql-bundle.tar.gz'')"

definition getCodeQLActionRepository :: "env \<Rightarrow> error + string" where
  "getCodeQLActionRepository E =
     (if isRunningLocalAction E then Inr CODEQL_DEFAULT_ACTION_REPOSITORY
      else getRequiredEnvParam E ''GITHUB_ACTION_REPOSITORY'')"

definition potentialDownloadSources :: "env \<Rightarrow> GitHubApiDetails \<Rightarrow> string \<Rightarrow> (string \<times> string) list" where
  "potentialDownloadSources E apiDetails codeQLActionRepository =
     [(api_url apiDetails, codeQLActionRepository),
      (api_url apiDetails, CODEQL_DEFAULT_ACTION_REPOSITORY),
      (GITHUB_DOTCOM_URL E, CODEQL_DEFAULT_ACTION_REPOSITORY)]"

text \<open>
  \<open>self.filter((source, index, self) => !self.slice(0, index).some(other => equal(source, other)))\<close>;
  deep equality of two pairs of strings is equality.
\<close>

definition filterOutDuplicates :: "'a list \<Rightarrow> 'a list" where
  "filterOutDuplicates self =
     map snd (filter (\<lambda>(index, source). \<not> list_ex (\<lambda>other. source = other) (take index self))
                (enumerate 0 self))"

definition uniqueDownloadSources :: "env \<Rightarrow> GitHubApiDetails \<Rightarrow> string \<Rightarrow> (string \<times> string) list" where
  "uniqueDownloadSources E apiDetails codeQLActionRepository =
     filterOutDuplicates (potentialDownloadSources E apiDetails codeQLActionRepository)"

text \<open>The first asset of a release with the bundle's name.\<close>

fun findBundleAsset :: "string \<Rightarrow> asset list \<Rightarrow> string option" where
  "findBundleAsset codeQLBundleName [] = None"
| "findBundleAsset codeQLBundleName (a # as) =
     (if asset_name a = codeQLBundleName then Some (asset_url a)
      else findBundleAsset codeQLBundleName as)"

text \<open>
  The body of the loop over the sources: the release is asked for by tag, and an
  error of the lookup is caught.
\<close>

definition lookupReleaseAsset :: "env \<Rightarrow> string option \<Rightarrow> string \<Rightarrow> string option" where
  "lookupReleaseAsset E tagName repository =
     (let parts = splitOn (CHR ''/'') repository in
      case getReleaseByTag E (nth_opt parts 0) (nth_opt parts 1) tagName of
        Inl e \<Rightarrow> None
      | Inr release \<Rightarrow> findBundleAsset (getCodeQLBundleName E) (assets release))"

text \<open>
  The loop: it stops at the pair of GitHub.com and the canonical repository, and
  returns at the first asset found. The first component of the result lists the
  sources that were asked, in order.
\<close>

fun lookupDownloadSources ::
  "env \<Rightarrow> string option \<Rightarrow> (string \<times> string) list \<Rightarrow> (string \<times> string) list \<times> string option" where
  "lookupDownloadSources E tagName [] = ([], None)"
| "lookupDownloadSources E tagName ((apiURL, repository) # rest) =
     (if apiURL = GITHUB_DOTCOM_URL E \<and> repository = CODEQL_DEFAULT_ACTION_REPOSITORY
      then ([], None)
      else case lookupReleaseAsset E tagName repository of
             Some assetUrl \<Rightarrow> ([(apiURL, repository)], Some assetUrl)
           | None \<Rightarrow>
               (let (asked, found) = lookupDownloadSources E tagName rest
                in ((apiURL, repository) # asked, found)))"

text \<open>The lookup at the dedicated endpoint of the managed variant; its errors are caught.\<close>

definition lookupGHAE :: "env \<Rightarrow> string option \<Rightarrow> string option" where
  "lookupGHAE E tagName =
     (case request_codeql_bundle_find E tagName of
        Inl e \<Rightarrow> None
      | Inr releaseAssets \<Rightarrow>
          (case releaseAssets (getCodeQLBundleName E) of
             None \<Rightarrow> None
           | Some assetID \<Rightarrow>
               (case request_codeql_bundle_download E assetID of
                  Inl e \<Rightarrow> None
                | Inr downloadURL \<Rightarrow> Some downloadURL)))"

text \<open>The result is the URL together with the sources asked by the loop.\<close>

definition getCodeQLBundleDownloadURL ::
  "env \<Rightarrow> string option \<Rightarrow> GitHubApiDetails \<Rightarrow> GitHubVariant
     \<Rightarrow> error + (string \<times> (string \<times> string) list)" where
  "getCodeQLBundleDownloadURL E tagName apiDetails variant =
     (case getCodeQLActionRepository E of
        Inl e \<Rightarrow> Inl e
      | Inr codeQLActionRepository \<Rightarrow>
          (case (if variant = GHAE then lookupGHAE E tagName else None) of
             Some downloadURL \<Rightarrow> Inr (downloadURL, [])
           | None \<Rightarrow>
               (case lookupDownloadSources E tagName
                       (uniqueDownloadSources E apiDetails codeQLActionRepository) of
                  (asked, Some assetUrl) \<Rightarrow> Inr (assetUrl, asked)
                | (asked, None) \<Rightarrow>
                    Inr (''https://github.com/'' @ CODEQL_DEFAULT_ACTION_REPOSITORY
                           @ ''/releases/download/'' @ render tagName @ ''/''
                           @ getCodeQLBundleName E,
                         asked))))"

section \<open>Version normalizer: coercion to a semantic version\<close>

definition convertToSemVer :: "env \<Rightarrow> string \<Rightarrow> error + string" where
  "convertToSemVer E version =
     (let version' = (if \<not> truthy (semver_valid E version) then ''0.0.0-'' @ version else version)
      in case semver_clean E version' of
           None \<Rightarrow> Inl (Error (''Bundle version '' @ version' @ '' is not in SemVer format.''))
         | Some s \<Rightarrow>
             if s = [] then Inl (Error (''Bundle version '' @ version' @ '' is not in SemVer format.''))
             else Inr s)"

section \<open>Tool source resolver\<close>

text \<open>
  The three sources, with their fields in this order: \<open>Local codeqlTarPath toolsVersion\<close>,
  \<open>Toolcache codeqlFolder toolsVersion\<close> and
  \<open>Download bundleVersion cliVersion codeqlURL toolsVersion\<close>.
\<close>

datatype CodeQLToolsSource =
  Local string string
  | Toolcache string string
  | Download "string option" "string option" string string

record CodeQLDefaultVersionInfo =
  default_cliVersion :: string
  default_tagName :: string

text \<open>The version that is only printed is not a parameter here.\<close>

definition findOverridingToolsInCache :: "env \<Rightarrow> CodeQLToolsSource option" where
  "findOverridingToolsInCache E =
     (let candidates =
            filter (\<lambda>(folder, version). fs_existsSync E (path_join E folder ''pinned-version''))
              (map (\<lambda>version. (toolcache_find E ''CodeQL'' version, version))
                 (filter (isGoodVersion E) (toolcache_findAllVersions E ''CodeQL'')))
      in if length candidates = 1
         then Some (Toolcache (fst (candidates ! 0)) (snd (candidates ! 0)))
         else None)"

definition tryGetFallbackToolcacheVersion :: "env \<Rightarrow> string \<Rightarrow> error + string option" where
  "tryGetFallbackToolcacheVersion E tagName =
     (let bundleVersion = tryGetBundleVersionFromTagName tagName in
      if \<not> truthy bundleVersion then Inr None
      else case convertToSemVer E (the bundleVersion) of
             Inl e \<Rightarrow> Inl e
           | Inr fallbackVersion \<Rightarrow> Inr (Some fallbackVersion))"

text \<open>
  The CLI version, the tag name and the URL the resolver works with: from
  \<open>defaults.json\<close> when \<open>latest\<close> is asked for, from the URL given, or from the default
  version passed in.
\<close>

definition requestedVersion ::
  "env \<Rightarrow> string option \<Rightarrow> CodeQLDefaultVersionInfo
     \<Rightarrow> error + (string option \<times> string option \<times> string option)" where
  "requestedVersion E toolsInput defaultCliVersion =
     (if toolsInput = Some ''latest''
      then Inr (Some (defaults_cliVersion E), Some (defaults_bundleVersion E), None)
      else case toolsInput of
             Some input \<Rightarrow>
               (let tagName = tryGetTagNameFromUrl input in
                if truthy tagName
                then (let bundleVersion = tryGetBundleVersionFromTagName (the tagName) in
                      if truthy bundleVersion \<and> truthy (semver_valid E (the bundleVersion))
                      then (case convertToSemVer E (the bundleVersion) of
                              Inl e \<Rightarrow> Inl e
                            | Inr v \<Rightarrow> Inr (Some v, tagName, Some input))
                      else Inr (None, tagName, Some input))
                else Inr (None, tagName, Some input))
           | None \<Rightarrow>
               Inr (Some (default_cliVersion defaultCliVersion),
                    Some (default_tagName defaultCliVersion), None))"

text \<open>
  \<open>cliVersion ?? (bundleVersion && convertToSemVer(bundleVersion)) ?? tagName ?? url ?? "unknown"\<close>
\<close>

definition humanReadableVersion ::
  "env \<Rightarrow> string option \<Rightarrow> string option \<Rightarrow> string option \<Rightarrow> error + string" where
  "humanReadableVersion E cliVersion tagName url =
     (case cliVersion of
        Some v \<Rightarrow> Inr v
      | None \<Rightarrow>
          (case andThen tagName tryGetBundleVersionFromTagName of
             Some bundleVersion \<Rightarrow>
               if bundleVersion = [] then Inr []
               else convertToSemVer E bundleVersion
           | None \<Rightarrow>
               (case tagName of
                  Some t \<Rightarrow> Inr t
                | None \<Rightarrow> (case url of Some u \<Rightarrow> Inr u | None \<Rightarrow> Inr ''unknown''))))"

text \<open>
  The lookup by CLI version: the exact version first, then the one cached version that
  starts with the CLI version and a dash.
\<close>

definition lookupByCliVersion :: "env \<Rightarrow> string option \<Rightarrow> string option" where
  "lookupByCliVersion E cliVersion =
     (if truthy cliVersion
      then (let codeqlFolder = toolcache_find E ''CodeQL'' (the cliVersion) in
            if codeqlFolder = []
            then (let allVersions = toolcache_findAllVersions E ''CodeQL'';
                      candidateVersions =
                        filter (\<lambda>version. prefix (the cliVersion @ ''-'') version) allVersions
                  in if length candidateVersions = 1
                     then Some (toolcache_find E ''CodeQL'' (candidateVersions ! 0))
                     else Some codeqlFolder)
            else Some codeqlFolder)
      else None)"

text \<open>The lookup by the version coerced from the tag name, when nothing was found before.\<close>

definition lookupByFallbackVersion ::
  "env \<Rightarrow> string option \<Rightarrow> string option \<Rightarrow> error + string option" where
  "lookupByFallbackVersion E codeqlFolder tagName =
     (if \<not> truthy codeqlFolder \<and> truthy tagName
      then (case tryGetFallbackToolcacheVersion E (the tagName) of
              Inl e \<Rightarrow> Inl e
            | Inr fallbackVersion \<Rightarrow>
                if truthy fallbackVersion
                then Inr (Some (toolcache_find E ''CodeQL'' (the fallbackVersion)))
                else Inr codeqlFolder)
      else Inr codeqlFolder)"

text \<open>What follows the lookups in the toolcache: the pinned version, then the download.\<close>

definition overrideOrDownload ::
  "env \<Rightarrow> string option \<Rightarrow> GitHubApiDetails \<Rightarrow> GitHubVariant
     \<Rightarrow> string option \<Rightarrow> string option \<Rightarrow> string option \<Rightarrow> string
     \<Rightarrow> error + CodeQLToolsSource" where
  "overrideOrDownload E toolsInput apiDetails variant cliVersion tagName url humanReadable =
     (case (if variant \<noteq> DOTCOM \<and> toolsInput \<noteq> Some ''latest'' \<and> \<not> truthy toolsInput
            then findOverridingToolsInCache E else None) of
        Some result \<Rightarrow> Inr result
      | None \<Rightarrow>
          (case (if \<not> truthy url
                 then map_sum id fst (getCodeQLBundleDownloadURL E tagName apiDetails variant)
                 else Inr (the url)) of
             Inl e \<Rightarrow> Inl e
           | Inr url' \<Rightarrow>
               Inr (Download (andThen tagName tryGetBundleVersionFromTagName) cliVersion url'
                      (case cliVersion of Some v \<Rightarrow> v | None \<Rightarrow> humanReadable))))"

definition getCodeQLSource ::
  "env \<Rightarrow> string option \<Rightarrow> CodeQLDefaultVersionInfo \<Rightarrow> GitHubApiDetails \<Rightarrow> GitHubVariant
     \<Rightarrow> error + CodeQLToolsSource" where
  "getCodeQLSource E toolsInput defaultCliVersion apiDetails variant =
     (if truthy toolsInput \<and> toolsInput \<noteq> Some ''latest'' \<and> \<not> prefix ''http'' (the toolsInput)
      then Inr (Local (the toolsInput) ''local'')
      else
        case requestedVersion E toolsInput defaultCliVersion of
          Inl e \<Rightarrow> Inl e
        | Inr (cliVersion, tagName, url) \<Rightarrow>
            (case humanReadableVersion E cliVersion tagName url of
               Inl e \<Rightarrow> Inl e
             | Inr humanReadable \<Rightarrow>
                 (case lookupByFallbackVersion E (lookupByCliVersion E cliVersion) tagName of
                    Inl e \<Rightarrow> Inl e
                  | Inr codeqlFolder \<Rightarrow>
                      if truthy codeqlFolder
                      then Inr (Toolcache (the codeqlFolder)
                                  (case cliVersion of Some v \<Rightarrow> v | None \<Rightarrow> humanReadable))
                      else overrideOrDownload E toolsInput apiDetails variant
                             cliVersion tagName url humanReadable)))"

section \<open>Acquisition pipeline\<close>

text \<open>
  The calls that change the runner: each call made is written to a trace, whether it
  succeeds or throws. A step of the pipeline maps the trace so far to its outcome and
  the trace after it.
\<close>

datatype event =
  DownloadTool string string "string option" "(string \<times> string) list"
  | ExtractTar string
  | Del string
  | CacheDir string string string

type_synonym 'a io = "event list \<Rightarrow> (error + 'a) \<times> event list"

definition io_return :: "'a \<Rightarrow> 'a io" where
  "io_return a = (\<lambda>trace. (Inr a, trace))"

definition io_lift :: "error + 'a \<Rightarrow> 'a io" where
  "io_lift outcome = (\<lambda>trace. (outcome, trace))"

definition io_call :: "event \<Rightarrow> error + 'a \<Rightarrow> 'a io" where
  "io_call ev outcome = (\<lambda>trace. (outcome, trace @ [ev]))"

definition io_bind :: "'a io \<Rightarrow> ('a \<Rightarrow> 'b io) \<Rightarrow> 'b io" where
  "io_bind m f =
     (\<lambda>trace. case m trace of
                 (Inl e, trace') \<Rightarrow> (Inl e, trace')
               | (Inr a, trace') \<Rightarrow> f a trace')"

definition io_catch :: "'a io \<Rightarrow> (error \<Rightarrow> 'a io) \<Rightarrow> 'a io" where
  "io_catch m handler =
     (\<lambda>trace. case m trace of
                 (Inl e, trace') \<Rightarrow> handler e trace'
               | (Inr a, trace') \<Rightarrow> (Inr a, trace'))"

record downloadResult =
  result_toolsVersion :: string
  result_codeqlFolder :: string
  result_toolsDownloadDurationMs :: int

text \<open>The snapshot of the disk space is only printed; a failure of the probe is thrown on.\<close>

definition printDiskSpace :: "env \<Rightarrow> nat \<Rightarrow> unit io" where
  "printDiskSpace E n =
     io_lift (case checkDiskSpace E n of Inl e \<Rightarrow> Inl e | Inr info \<Rightarrow> Inr ())"

text \<open>\<open>includes\<close> of a string: the text occurs somewhere in the string.\<close>

fun str_includes :: "string \<Rightarrow> string \<Rightarrow> bool" where
  "str_includes [] sub = (sub = [])"
| "str_includes (c # cs) sub = (prefix sub (c # cs) \<or> str_includes cs sub)"

text \<open>
  \<open>.*\<close> followed by a fixed text, within one line: the longest prefix of the line
  after which the text stands.
\<close>

fun greedyBefore :: "string \<Rightarrow> string \<Rightarrow> string option" where
  "greedyBefore pat [] = (if pat = [] then Some [] else None)"
| "greedyBefore pat (c # cs) =
     (case greedyBefore pat cs of
        Some x \<Rightarrow> Some (c # x)
      | None \<Rightarrow> if prefix pat (c # cs) then Some [] else None)"

text \<open>\<open>/cli-version-(.*)\.txt/\<close> tried at the start of \<open>s\<close>.\<close>

definition matchCliVersionAt :: "string \<Rightarrow> string option" where
  "matchCliVersionAt s =
     (if prefix ''cli-version-'' s
      then greedyBefore ''.txt''
             (takeWhile (\<lambda>c. \<not> isLineTerminator c) (drop (length ''cli-version-'') s))
      else None)"

definition tryGetCodeQLCliVersionForRelease :: "release \<Rightarrow> string option" where
  "tryGetCodeQLCliVersionForRelease release =
     (let cliVersionsFromMarkerFiles =
            map the (filter truthy
              (map (\<lambda>asset. regexSearch matchCliVersionAt (asset_name asset)) (assets release)))
      in if length cliVersionsFromMarkerFiles > 1 then None
         else if length cliVersionsFromMarkerFiles = 0 then None
         else Some (cliVersionsFromMarkerFiles ! 0))"

definition tryFindCliVersionDotcomOnly :: "env \<Rightarrow> string \<Rightarrow> string option" where
  "tryFindCliVersionDotcomOnly E tagName =
     (case getCodeQLActionRepository E of
        Inl e \<Rightarrow> None
      | Inr codeQLActionRepository \<Rightarrow>
          (let parts = splitOn (CHR ''/'') codeQLActionRepository in
           case getReleaseByTag E (nth_opt parts 0) (nth_opt parts 1) (Some tagName) of
             Inl e \<Rightarrow> None
           | Inr release \<Rightarrow> tryGetCodeQLCliVersionForRelease release))"

definition isAsciiDigit :: "char \<Rightarrow> bool" where
  "isAsciiDigit c = (c \<in> set ''0123456789'')"

text \<open>\<open>/^[0-9]+\.[0-9]+\.[0-9]+$/\<close>: digits, a dot, digits, a dot, digits, and nothing else.\<close>

definition matchStableVersionRegex :: "string \<Rightarrow> bool" where
  "matchStableVersionRegex s =
     (let major = takeWhile isAsciiDigit s; afterMajor = dropWhile isAsciiDigit s in
      major \<noteq> [] \<and>
      (case afterMajor of
         [] \<Rightarrow> False
       | d # rest \<Rightarrow>
           d = CHR ''.'' \<and>
           (let minor = takeWhile isAsciiDigit rest; afterMinor = dropWhile isAsciiDigit rest in
            minor \<noteq> [] \<and>
            (case afterMinor of
               [] \<Rightarrow> False
             | d' # patch \<Rightarrow> d' = CHR ''.'' \<and> patch \<noteq> [] \<and> list_all isAsciiDigit patch))))"

text \<open>The authorization header of the download.\<close>

definition authorizationFor :: "env \<Rightarrow> GitHubApiDetails \<Rightarrow> string \<Rightarrow> string \<Rightarrow> string option" where
  "authorizationFor E apiDetails codeqlURL search =
     (if searchParams_has E search ''token'' then None
      else if prefix (api_url apiDetails @ ''/'') codeqlURL
      then Some (''token '' @ api_auth apiDetails)
      else None)"

text \<open>
  The CLI version the cache key is computed from: recovered from the release on
  GitHub.com when it is not known.
\<close>

definition recoverCliVersion ::
  "env \<Rightarrow> GitHubVariant \<Rightarrow> string \<Rightarrow> string \<Rightarrow> string option \<Rightarrow> string option" where
  "recoverCliVersion E variant codeqlURL bundleVersion maybeCliVersion =
     (if maybeCliVersion = None \<and> variant = DOTCOM
         \<and> str_includes codeqlURL (''/'' @ CODEQL_DEFAULT_ACTION_REPOSITORY @ ''/'')
      then tryFindCliVersionDotcomOnly E (''codeql-bundle-'' @ bundleVersion)
      else maybeCliVersion)"

definition toolcacheVersionFor :: "env \<Rightarrow> string option \<Rightarrow> string \<Rightarrow> error + string" where
  "toolcacheVersionFor E maybeCliVersion bundleVersion =
     (if (case maybeCliVersion of None \<Rightarrow> False | Some v \<Rightarrow> matchStableVersionRegex v)
      then Inr (the maybeCliVersion @ ''-'' @ bundleVersion)
      else convertToSemVer E bundleVersion)"

definition downloadCodeQL ::
  "env \<Rightarrow> string \<Rightarrow> string option \<Rightarrow> string option \<Rightarrow> GitHubApiDetails \<Rightarrow> GitHubVariant
     \<Rightarrow> string \<Rightarrow> downloadResult io" where
  "downloadCodeQL E codeqlURL maybeBundleVersion maybeCliVersion apiDetails variant tempDir =
     io_bind (io_lift (new_URL_search E codeqlURL)) (\<lambda>search.
     let headers = [(''accept'', ''application/octet-stream'')];
         authorization = authorizationFor E apiDetails codeqlURL search in
     io_bind (printDiskSpace E 0) (\<lambda>_.
     let dest = path_join E tempDir (uuidV4 E);
         finalHeaders = (''User-Agent'', ''CodeQL Action'') # headers in
     io_bind (io_call (DownloadTool codeqlURL dest authorization finalHeaders)
                (toolcache_downloadTool E codeqlURL dest authorization finalHeaders)) (\<lambda>codeqlPath.
     io_bind (printDiskSpace E 1) (\<lambda>_.
     io_bind (io_call (ExtractTar codeqlPath) (toolcache_extractTar E codeqlPath)) (\<lambda>codeqlExtracted.
     io_bind (printDiskSpace E 2) (\<lambda>_.
     io_bind (io_catch (io_call (Del codeqlPath) (del E codeqlPath)) (\<lambda>e. io_return ())) (\<lambda>_.
     io_bind (printDiskSpace E 3) (\<lambda>_.
     case (case maybeBundleVersion of
             None \<Rightarrow> tryGetBundleVersionFromUrl codeqlURL
           | Some b \<Rightarrow> Some b) of
       None \<Rightarrow>
         io_return \<lparr>result_toolsVersion = (case maybeCliVersion of None \<Rightarrow> ''unknown'' | Some v \<Rightarrow> v),
                    result_codeqlFolder = codeqlExtracted,
                    result_toolsDownloadDurationMs = toolsDownloadDurationMs E\<rparr>
     | Some bundleVersion \<Rightarrow>
         (let maybeCliVersion' = recoverCliVersion E variant codeqlURL bundleVersion maybeCliVersion in
          io_bind (io_lift (toolcacheVersionFor E maybeCliVersion' bundleVersion)) (\<lambda>toolcacheVersion.
          io_bind (io_call (CacheDir codeqlExtracted ''CodeQL'' toolcacheVersion)
                     (toolcache_cacheDir E codeqlExtracted ''CodeQL'' toolcacheVersion)) (\<lambda>codeqlFolder.
          io_bind (printDiskSpace E 4) (\<lambda>_.
          io_bind (io_call (Del codeqlExtracted) (del E codeqlExtracted)) (\<lambda>_.
          io_bind (printDiskSpace E 5) (\<lambda>_.
          io_return \<lparr>result_toolsVersion =
                       (case maybeCliVersion' of None \<Rightarrow> toolcacheVersion | Some v \<Rightarrow> v),
                     result_codeqlFolder = codeqlFolder,
                     result_toolsDownloadDurationMs = toolsDownloadDurationMs E\<rparr>))))))))))))))"

section \<open>The package semver and a runner, for the instances of the theorems\<close>

text \<open>
  The package \<open>semver\<close> is not part of the repository; the theorems take its functions
  \<open>valid\<close> and \<open>clean\<close> from the environment. The instances of the theorems use the
  following model of its strict grammar: an optional \<open>v\<close>, three numeric identifiers
  without leading zeros and within the safe integers, an optional pre-release after a
  dash and optional build metadata after a plus sign, in a string of at most 256
  code units with white space trimmed. The version it returns is the main version
  and the pre-release; the build metadata is dropped.
\<close>

definition isLetterDashNumber :: "char \<Rightarrow> bool" where
  "isLetterDashNumber c =
     (c \<in> set ''0123456789abcdefghijklmnopqrstuvwxyzABCDEFGHIJKLMNOPQRSTUVWXYZ-'')"

definition isWhiteSpace :: "char \<Rightarrow> bool" where
  "isWhiteSpace c =
     (c \<in> set [CHR 0x09, CHR 0x0A, CHR 0x0B, CHR 0x0C, CHR 0x0D, CHR 0x20, CHR 0xA0])"

definition trim :: "string \<Rightarrow> string" where
  "trim s = rev (dropWhile isWhiteSpace (rev (dropWhile isWhiteSpace s)))"

definition intOfDigits :: "string \<Rightarrow> int" where
  "intOfDigits s = foldl (\<lambda>n c. 10 * n + (of_char c - 48)) 0 s"

definition MAX_SAFE_INTEGER :: int where
  "MAX_SAFE_INTEGER = 9007199254740991"

definition numericIdentifier :: "string \<Rightarrow> bool" where
  "numericIdentifier s =
     (s = ''0'' \<or> (s \<noteq> [] \<and> list_all isAsciiDigit s \<and> hd s \<noteq> CHR ''0''))"

definition prereleaseIdentifier :: "string \<Rightarrow> bool" where
  "prereleaseIdentifier s =
     (numericIdentifier s
      \<or> (list_all isLetterDashNumber s \<and> list_ex (\<lambda>c. \<not> isAsciiDigit c) s))"

definition buildIdentifier :: "string \<Rightarrow> bool" where
  "buildIdentifier s = (s \<noteq> [] \<and> list_all isLetterDashNumber s)"

definition mainVersion :: "string \<Rightarrow> bool" where
  "mainVersion s =
     (case splitOn (CHR ''.'') s of
        [major, minor, patch] \<Rightarrow>
          list_all (\<lambda>n. numericIdentifier n \<and> intOfDigits n \<le> MAX_SAFE_INTEGER)
            [major, minor, patch]
      | _ \<Rightarrow> False)"

definition semverParse :: "string \<Rightarrow> string option" where
  "semverParse version =
     (if length version > 256 then None
      else
        let trimmed = trim version;
            plain = (case trimmed of [] \<Rightarrow> [] | c # cs \<Rightarrow> if c = CHR ''v'' then cs else c # cs);
            build = dropWhile (\<lambda>c. c \<noteq> CHR ''+'') plain;
            versionPart = takeWhile (\<lambda>c. c \<noteq> CHR ''+'') plain;
            prerelease = dropWhile (\<lambda>c. c \<noteq> CHR ''-'') versionPart;
            main = takeWhile (\<lambda>c. c \<noteq> CHR ''-'') versionPart
        in if mainVersion main
              \<and> (prerelease = [] \<or> list_all prereleaseIdentifier (splitOn (CHR ''.'') (tl prerelease)))
              \<and> (build = [] \<or> list_all buildIdentifier (splitOn (CHR ''.'') (tl build)))
           then Some (main @ prerelease)
           else None)"

definition semverValid :: "string \<Rightarrow> string option" where
  "semverValid version = semverParse version"

definition semverClean :: "string \<Rightarrow> string option" where
  "semverClean version =
     semverParse (dropWhile (\<lambda>c. c = CHR ''='' \<or> c = CHR ''v'') (trim version))"

text \<open>
  A runner on GitHub.com with an empty toolcache, on which every release lookup fails
  and every call of the toolcache succeeds. Its URL parser takes the query from the
  first question mark on, and a parameter is in the query when its name and an equals
  sign occur there.
\<close>

definition dotcomRunner :: env where
  "dotcomRunner =
     \<lparr> process_platform = ''linux'',
       isRunningLocalAction = False,
       getRequiredEnvParam =
         (\<lambda>name. if name = ''GITHUB_ACTION_REPOSITORY'' then Inr ''github/codeql-action''
                  else Inl (Error (name @ '' environment variable must be set''))),
       GITHUB_DOTCOM_URL = ''https://github.com'',
       defaults_cliVersion = ''2.15.0'',
       defaults_bundleVersion = ''codeql-bundle-v2.15.0'',
       semver_valid = semverValid,
       semver_clean = semverClean,
       isGoodVersion = (\<lambda>version. True),
       getReleaseByTag = (\<lambda>owner repo tag. Inl (External ''Not Found'')),
       request_codeql_bundle_find = (\<lambda>tag. Inl (External ''Not Found'')),
       request_codeql_bundle_download = (\<lambda>assetID. Inl (External ''Not Found'')),
       toolcache_find = (\<lambda>toolName version. []),
       toolcache_findAllVersions = (\<lambda>toolName. []),
       fs_existsSync = (\<lambda>file. False),
       path_join = (\<lambda>dir file. dir @ ''/'' @ file),
       new_URL_search = (\<lambda>u. Inr (dropWhile (\<lambda>c. c \<noteq> CHR ''?'') u)),
       searchParams_has = (\<lambda>search name. str_includes search (name @ ''='')),
       uuidV4 = ''3b241101-e2bb-4255-8caf-4136c566a962'',
       toolsDownloadDurationMs = 1500,
       checkDiskSpace = (\<lambda>n. Inr \<lparr>free = 20000000000, size = 80000000000\<rparr>),
       toolcache_downloadTool = (\<lambda>u dest authorization headers. Inr dest),
       toolcache_extractTar = (\<lambda>file. Inr (file @ ''-extracted'')),
       toolcache_cacheDir =
         (\<lambda>sourceDir tool version. Inr (''/opt/hostedtoolcache/'' @ tool @ ''/'' @ version @ ''/x64'')),
       del = (\<lambda>file. Inr ()) \<rparr>"

text \<open>A toolcache that holds the listed versions, each in a folder named after it.\<close>

definition withToolcache :: "string list \<Rightarrow> env \<Rightarrow> env" where
  "withToolcache versions E =
     E \<lparr> toolcache_findAllVersions := (\<lambda>toolName. versions),
         toolcache_find :=
           (\<lambda>toolName version.
              if version \<in> set versions
              then ''/opt/hostedtoolcache/'' @ toolName @ ''/'' @ version @ ''/x64''
              else []) \<rparr>"

text \<open>The API details of a job on GitHub.com and of a job on an enterprise server.\<close>

definition dotcomApi :: GitHubApiDetails where
  "dotcomApi = \<lparr>api_auth = ''secret'', api_url = ''https://github.com''\<rparr>"

definition enterpriseApi :: GitHubApiDetails where
  "enterpriseApi = \<lparr>api_auth = ''secret'', api_url = ''https://ghe.example.com''\<rparr>"

section \<open>The host of a URL\<close>

text \<open>
  The spec speaks of the host of the download and the host of the job. This is the
  host of a URL in those words, for comparing them with the test the code makes: the
  text after the first \<open>://\<close>, up to the next slash.
\<close>

fun afterScheme :: "string \<Rightarrow> string" where
  "afterScheme [] = []"
| "afterScheme (c # cs) =
     (if prefix ''://'' (c # cs) then drop (length ''://'') (c # cs) else afterScheme cs)"

definition hostOfUrl :: "string \<Rightarrow> string" where
  "hostOfUrl u = takeWhile (\<lambda>c. c \<noteq> CHR ''/'') (afterScheme u)"

section \<open>Specifications of pipeline steps\<close>

text \<open>
  A step meets a specification when, from every trace, it only appends events that
  satisfy \<open>P\<close>, and every value it returns satisfies \<open>Q\<close>.
\<close>

definition io_spec :: "'a io \<Rightarrow> (event \<Rightarrow> bool) \<Rightarrow> ('a \<Rightarrow> bool) \<Rightarrow> bool" where
  "io_spec m P Q =
     (\<forall>trace. \<exists>new. snd (m trace) = trace @ new \<and> list_all P new
                 \<and> (\<forall>a. fst (m trace) = Inr a \<longrightarrow> Q a))"

text \<open>A computation that returns when its collaborators do.\<close>

definition io_ok :: "'a io \<Rightarrow> bool" where
  "io_ok m = (\<forall>trace. \<exists>a. fst (m trace) = Inr a)"

section \<open>Properties of the regular expressions\<close>

lemma noLineTerminator_append [simp]:
  "noLineTerminator (xs @ ys) \<longleftrightarrow> noLineTerminator xs \<and> noLineTerminator ys"
  by (simp add: noLineTerminator_def)

lemma slash_noLineTerminator [simp]: "\<not> isLineTerminator (CHR ''/'')"
  by (simp add: isLineTerminator_def)

lemma takeWhile_line_split:
  "takeWhile (\<lambda>c. \<not> isLineTerminator c) (x @ s) =
     (if noLineTerminator x then x @ takeWhile (\<lambda>c. \<not> isLineTerminator c) s
      else takeWhile (\<lambda>c. \<not> isLineTerminator c) x)"
  by (induction x) (auto simp: noLineTerminator_def)

lemma greedyUpToSlash_complete:
  assumes "noLineTerminator x"
    and "CHR ''/'' \<notin> set (takeWhile (\<lambda>c. \<not> isLineTerminator c) s)"
  shows "greedyUpToSlash (x @ ''/'' @ s) = Some x"
proof -
  define t where "t = takeWhile (\<lambda>c. \<not> isLineTerminator c) s"
  have line: "takeWhile (\<lambda>c. \<not> isLineTerminator c) (x @ ''/'' @ s) = x @ ''/'' @ t"
    using assms(1) by (simp add: takeWhile_line_split t_def)
  have nt: "CHR ''/'' \<notin> set t" using assms(2) by (simp add: t_def)
  then have "\<forall>c \<in> set (rev t). c \<noteq> CHR ''/''" by auto
  then have "dropWhile (\<lambda>c. c \<noteq> CHR ''/'') (rev t @ CHR ''/'' # rev x) = CHR ''/'' # rev x"
    by (simp add: dropWhile_append2 del: set_rev)
  then show ?thesis
    unfolding greedyUpToSlash_def line by (simp add: Let_def)
qed

lemma greedyUpToSlash_sound:
  assumes "greedyUpToSlash rest = Some x"
  shows "\<exists>s. rest = x @ ''/'' @ s \<and> noLineTerminator x
           \<and> CHR ''/'' \<notin> set (takeWhile (\<lambda>c. \<not> isLineTerminator c) s)"
proof -
  define line where "line = takeWhile (\<lambda>c. \<not> isLineTerminator c) rest"
  define tail where "tail = dropWhile (\<lambda>c. \<not> isLineTerminator c) rest"
  define a where "a = takeWhile (\<lambda>c. c \<noteq> CHR ''/'') (rev line)"
  define d where "d = dropWhile (\<lambda>c. c \<noteq> CHR ''/'') (rev line)"
  from assms have mem: "CHR ''/'' \<in> set line" and x: "x = rev (tl d)"
    by (auto simp: greedyUpToSlash_def Let_def line_def d_def split: if_splits)
  from mem have "d \<noteq> []" by (simp add: d_def dropWhile_eq_Nil_conv)
  then have hd: "d = CHR ''/'' # tl d"
    using hd_dropWhile[of "\<lambda>c. c \<noteq> CHR ''/''" "rev line"] by (cases d) (auto simp: d_def)
  have "rev line = a @ d" by (simp add: a_def d_def)
  then have "rev line = a @ CHR ''/'' # tl d" using hd by simp
  then have "rev (rev line) = rev (a @ CHR ''/'' # tl d)" by simp
  then have line: "line = x @ ''/'' @ rev a" using x by simp
  have rest: "rest = line @ tail" by (simp add: line_def tail_def)
  have allP: "\<forall>c \<in> set line. \<not> isLineTerminator c"
    unfolding line_def by (metis set_takeWhileD)
  then have nx: "noLineTerminator x" and na: "\<forall>c \<in> set (rev a). \<not> isLineTerminator c"
    unfolding line by (auto simp: noLineTerminator_def list_all_iff)
  have tw: "takeWhile (\<lambda>c. \<not> isLineTerminator c) (rev a @ tail) = rev a"
  proof (cases tail)
    case Nil
    then show ?thesis using na by (simp add: takeWhile_eq_all_conv)
  next
    case (Cons c cs)
    then have "isLineTerminator c"
      using hd_dropWhile[of "\<lambda>c. \<not> isLineTerminator c" rest] by (auto simp: tail_def)
    then show ?thesis using na Cons by (simp add: takeWhile_append2 del: set_rev)
  qed
  have "CHR ''/'' \<notin> set (rev a)"
    using set_takeWhileD[of "CHR ''/''" "\<lambda>c. c \<noteq> CHR ''/''" "rev line"] by (auto simp: a_def)
  moreover have "rest = x @ ''/'' @ (rev a @ tail)"
    using rest line by simp
  ultimately show ?thesis using nx tw by metis
qed

lemma greedyUpToSlash_None_iff:
  "greedyUpToSlash rest = None \<longleftrightarrow> \<not> (\<exists>x s. rest = x @ ''/'' @ s \<and> noLineTerminator x)"
proof
  assume n: "greedyUpToSlash rest = None"
  show "\<not> (\<exists>x s. rest = x @ ''/'' @ s \<and> noLineTerminator x)"
  proof
    assume "\<exists>x s. rest = x @ ''/'' @ s \<and> noLineTerminator x"
    then obtain x s where r: "rest = x @ ''/'' @ s" and nx: "noLineTerminator x" by blast
    then have "CHR ''/'' \<in> set (takeWhile (\<lambda>c. \<not> isLineTerminator c) rest)"
      by (simp add: takeWhile_line_split)
    with n show False by (simp add: greedyUpToSlash_def Let_def)
  qed
next
  assume h: "\<not> (\<exists>x s. rest = x @ ''/'' @ s \<and> noLineTerminator x)"
  show "greedyUpToSlash rest = None"
  proof (cases "greedyUpToSlash rest")
    case None then show ?thesis .
  next
    case (Some x)
    from greedyUpToSlash_sound[OF Some] h show ?thesis by blast
  qed
qed

lemma regexSearch_None_iff:
  "regexSearch m s = None \<longleftrightarrow> (\<forall>q. suffix q s \<longrightarrow> m q = None)"
  by (induction s) (auto simp: suffix_Cons split: option.splits)

lemma regexSearch_Some:
  "regexSearch m s = Some r \<Longrightarrow>
     \<exists>p q. s = p @ q \<and> m q = Some r \<and> (\<forall>p' q'. s = p' @ q' \<and> length p' < length p \<longrightarrow> m q' = None)"
proof (induction s)
  case Nil
  then show ?case by auto
next
  case (Cons c cs)
  show ?case
  proof (cases "m (c # cs)")
    case (Some r')
    with Cons.prems have "m (c # cs) = Some r" by simp
    then show ?thesis by (intro exI[of _ "[]"] exI[of _ "c # cs"]) simp
  next
    case None
    with Cons.prems have "regexSearch m cs = Some r" by simp
    from Cons.IH[OF this] obtain p q where
      pq: "cs = p @ q" "m q = Some r"
      and least: "\<forall>p' q'. cs = p' @ q' \<and> length p' < length p \<longrightarrow> m q' = None" by blast
    have "\<forall>p' q'. c # cs = p' @ q' \<and> length p' < length (c # p) \<longrightarrow> m q' = None"
    proof (intro allI impI)
      fix p' q' assume a: "c # cs = p' @ q' \<and> length p' < length (c # p)"
      show "m q' = None"
      proof (cases p')
        case Nil
        with a None show ?thesis by simp
      next
        case (Cons d ds)
        with a have "cs = ds @ q'" "length ds < length p" by auto
        with least show ?thesis by blast
      qed
    qed
    with pq show ?thesis by (intro exI[of _ "c # p"] exI[of _ q]) simp
  qed
qed


lemma regexSearch_least:
  "m q = Some r \<Longrightarrow> (\<forall>p' q'. p @ q = p' @ q' \<and> length p' < length p \<longrightarrow> m q' = None)
     \<Longrightarrow> regexSearch m (p @ q) = Some r"
proof (induction p)
  case Nil
  then show ?case by (cases q) auto
next
  case (Cons c p)
  have "m (c # p @ q) = None"
    using Cons.prems(2) by (metis append_Nil length_greater_0_conv list.distinct(1) list.size(3) append_Cons)
  moreover have "\<forall>p' q'. p @ q = p' @ q' \<and> length p' < length p \<longrightarrow> m q' = None"
  proof (intro allI impI)
    fix p' q' assume "p @ q = p' @ q' \<and> length p' < length p"
    then have "(c # p) @ q = (c # p') @ q' \<and> length (c # p') < length (c # p)" by simp
    with Cons.prems(2) show "m q' = None" by blast
  qed
  ultimately show ?case using Cons.IH[OF Cons.prems(1)] by simp
qed

lemma matchBundleSegmentAt_Some_iff:
  "matchBundleSegmentAt q = Some x \<longleftrightarrow>
     (\<exists>s. q = ''/codeql-bundle-'' @ x @ ''/'' @ s \<and> noLineTerminator x
          \<and> CHR ''/'' \<notin> set (takeWhile (\<lambda>c. \<not> isLineTerminator c) s))"
proof
  assume a: "matchBundleSegmentAt q = Some x"
  then have pre: "prefix ''/codeql-bundle-'' q"
    and g: "greedyUpToSlash (drop (length ''/codeql-bundle-'') q) = Some x"
    by (auto simp: matchBundleSegmentAt_def split: if_splits)
  from pre obtain rest where q: "q = ''/codeql-bundle-'' @ rest" by (auto simp: prefix_def)
  with g have "greedyUpToSlash rest = Some x" by simp
  from greedyUpToSlash_sound[OF this] q
  show "\<exists>s. q = ''/codeql-bundle-'' @ x @ ''/'' @ s \<and> noLineTerminator x
          \<and> CHR ''/'' \<notin> set (takeWhile (\<lambda>c. \<not> isLineTerminator c) s)" by auto
next
  assume "\<exists>s. q = ''/codeql-bundle-'' @ x @ ''/'' @ s \<and> noLineTerminator x
          \<and> CHR ''/'' \<notin> set (takeWhile (\<lambda>c. \<not> isLineTerminator c) s)"
  then obtain s where q: "q = ''/codeql-bundle-'' @ x @ ''/'' @ s" and nx: "noLineTerminator x"
    and ns: "CHR ''/'' \<notin> set (takeWhile (\<lambda>c. \<not> isLineTerminator c) s)" by blast
  show "matchBundleSegmentAt q = Some x"
    using greedyUpToSlash_complete[OF nx ns] by (simp add: matchBundleSegmentAt_def q)
qed

lemma matchBundleSegmentAt_None_iff:
  "matchBundleSegmentAt q = None \<longleftrightarrow>
     \<not> (\<exists>x s. q = ''/codeql-bundle-'' @ x @ ''/'' @ s \<and> noLineTerminator x)"
proof (cases "prefix ''/codeql-bundle-'' q")
  case True
  then obtain rest where q: "q = ''/codeql-bundle-'' @ rest" by (auto simp: prefix_def)
  then show ?thesis
    by (simp add: matchBundleSegmentAt_def greedyUpToSlash_None_iff)
next
  case False
  then show ?thesis by (auto simp: matchBundleSegmentAt_def prefix_def)
qed

lemma regexSearch_segment_None_iff:
  "regexSearch matchBundleSegmentAt url = None \<longleftrightarrow>
     \<not> (\<exists>p x s. url = p @ ''/codeql-bundle-'' @ x @ ''/'' @ s \<and> noLineTerminator x)"
proof -
  have "regexSearch matchBundleSegmentAt url = None \<longleftrightarrow>
          (\<forall>p q. url = p @ q \<longrightarrow> matchBundleSegmentAt q = None)"
    by (auto simp: regexSearch_None_iff suffix_def)
  also have "\<dots> \<longleftrightarrow> \<not> (\<exists>p x s. url = p @ ''/codeql-bundle-'' @ x @ ''/'' @ s \<and> noLineTerminator x)"
    unfolding matchBundleSegmentAt_None_iff by blast
  finally show ?thesis .
qed

lemma regexSearch_segment_Some_iff:
  "regexSearch matchBundleSegmentAt url = Some x \<longleftrightarrow>
     (\<exists>p s. url = p @ ''/codeql-bundle-'' @ x @ ''/'' @ s
        \<and> noLineTerminator x
        \<and> CHR ''/'' \<notin> set (takeWhile (\<lambda>c. \<not> isLineTerminator c) s)
        \<and> (\<forall>p' x' s'. url = p' @ ''/codeql-bundle-'' @ x' @ ''/'' @ s' \<and> noLineTerminator x'
              \<longrightarrow> length p \<le> length p'))"
  (is "?L \<longleftrightarrow> ?R")
proof
  assume ?L
  from regexSearch_Some[OF this] obtain p q where
    u: "url = p @ q" and m: "matchBundleSegmentAt q = Some x"
    and least: "\<forall>p' q'. url = p' @ q' \<and> length p' < length p \<longrightarrow> matchBundleSegmentAt q' = None"
    by blast
  from m obtain s where q: "q = ''/codeql-bundle-'' @ x @ ''/'' @ s" and nx: "noLineTerminator x"
    and ns: "CHR ''/'' \<notin> set (takeWhile (\<lambda>c. \<not> isLineTerminator c) s)"
    unfolding matchBundleSegmentAt_Some_iff by blast
  have "\<forall>p' x' s'. url = p' @ ''/codeql-bundle-'' @ x' @ ''/'' @ s' \<and> noLineTerminator x'
              \<longrightarrow> length p \<le> length p'"
  proof (intro allI impI)
    fix p' x' s'
    assume a: "url = p' @ ''/codeql-bundle-'' @ x' @ ''/'' @ s' \<and> noLineTerminator x'"
    then have "matchBundleSegmentAt (''/codeql-bundle-'' @ x' @ ''/'' @ s') \<noteq> None"
      unfolding matchBundleSegmentAt_None_iff by blast
    then have n: "matchBundleSegmentAt (''/codeql-bundle-'' @ x' @ ''/'' @ s') \<noteq> None" .
    show "length p \<le> length p'"
    proof (rule ccontr)
      assume "\<not> length p \<le> length p'"
      then have "length p' < length p" by simp
      with least a have "matchBundleSegmentAt (''/codeql-bundle-'' @ x' @ ''/'' @ s') = None"
        by blast
      with n show False by simp
    qed
  qed
  with u q nx ns show ?R by blast
next
  assume ?R
  then obtain p s where u: "url = p @ ''/codeql-bundle-'' @ x @ ''/'' @ s"
    and nx: "noLineTerminator x"
    and ns: "CHR ''/'' \<notin> set (takeWhile (\<lambda>c. \<not> isLineTerminator c) s)"
    and least: "\<forall>p' x' s'. url = p' @ ''/codeql-bundle-'' @ x' @ ''/'' @ s' \<and> noLineTerminator x'
              \<longrightarrow> length p \<le> length p'" by blast
  let ?q = "''/codeql-bundle-'' @ x @ ''/'' @ s"
  have m: "matchBundleSegmentAt ?q = Some x"
    unfolding matchBundleSegmentAt_Some_iff using nx ns by blast
  have "\<forall>p' q'. p @ ?q = p' @ q' \<and> length p' < length p \<longrightarrow> matchBundleSegmentAt q' = None"
  proof (intro allI impI)
    fix p' q' assume a: "p @ ?q = p' @ q' \<and> length p' < length p"
    show "matchBundleSegmentAt q' = None"
    proof (rule ccontr)
      assume "matchBundleSegmentAt q' \<noteq> None"
      then obtain x' s' where "q' = ''/codeql-bundle-'' @ x' @ ''/'' @ s'" "noLineTerminator x'"
        unfolding matchBundleSegmentAt_None_iff by blast
      with a u least have "length p \<le> length p'" by metis
      with a show False by simp
    qed
  qed
  from regexSearch_least[OF m this] u show ?L by simp
qed

section \<open>Properties of the enumerator and the locator\<close>

lemma filterOutDuplicates_snoc:
  "filterOutDuplicates (xs @ [x]) = filterOutDuplicates xs @ (if x \<in> set xs then [] else [x])"
proof -
  have "filter (\<lambda>(index, source). \<not> list_ex (\<lambda>other. source = other) (take index (xs @ [x])))
          (enumerate 0 xs)
        = filter (\<lambda>(index, source). \<not> list_ex (\<lambda>other. source = other) (take index xs))
          (enumerate 0 xs)"
    by (rule filter_cong) (auto simp: in_set_enumerate_eq)
  then show ?thesis
    by (auto simp: filterOutDuplicates_def enumerate_append_eq list_ex_iff)
qed

lemma filterOutDuplicates_Nil [simp]: "filterOutDuplicates [] = []"
  by (simp add: filterOutDuplicates_def)

lemma set_filterOutDuplicates: "set (filterOutDuplicates xs) = set xs"
  by (induction xs rule: rev_induct) (auto simp: filterOutDuplicates_snoc)

lemma distinct_filterOutDuplicates: "distinct (filterOutDuplicates xs)"
  by (induction xs rule: rev_induct) (auto simp: filterOutDuplicates_snoc set_filterOutDuplicates)

lemma filterOutDuplicates_three:
  "filterOutDuplicates [a, b, c] =
     a # (if b = a then [] else [b]) @ (if c = a \<or> c = b then [] else [c])"
proof -
  have "filterOutDuplicates ([] @ [a]) = [a]" unfolding filterOutDuplicates_snoc by simp
  then have 1: "filterOutDuplicates [a] = [a]" by simp
  have "filterOutDuplicates ([a] @ [b]) = a # (if b = a then [] else [b])"
    unfolding filterOutDuplicates_snoc 1 by simp
  then have 2: "filterOutDuplicates [a, b] = a # (if b = a then [] else [b])" by simp
  have "filterOutDuplicates ([a, b] @ [c]) =
     a # (if b = a then [] else [b]) @ (if c = a \<or> c = b then [] else [c])"
    unfolding filterOutDuplicates_snoc 2 by simp
  then show ?thesis by simp
qed

lemma lookupDownloadSources_asked_prefix:
  "prefix (fst (lookupDownloadSources E tagName sources)) sources"
  by (induction E tagName sources rule: lookupDownloadSources.induct)
     (auto split: option.splits prod.splits)

lemma lookupDownloadSources_asked_not_dotcom:
  "(GITHUB_DOTCOM_URL E, CODEQL_DEFAULT_ACTION_REPOSITORY)
     \<notin> set (fst (lookupDownloadSources E tagName sources))"
  by (induction E tagName sources rule: lookupDownloadSources.induct)
     (auto split: option.splits prod.splits)

lemma lookupDownloadSources_all_fail:
  "(\<forall>(apiURL, repository) \<in> set sources.
       (apiURL, repository) \<noteq> (GITHUB_DOTCOM_URL E, CODEQL_DEFAULT_ACTION_REPOSITORY)
         \<longrightarrow> lookupReleaseAsset E tagName repository = None)
   \<Longrightarrow> snd (lookupDownloadSources E tagName sources) = None"
  by (induction E tagName sources rule: lookupDownloadSources.induct)
     (auto split: option.splits prod.splits)

lemma getCodeQLBundleDownloadURL_returns:
  assumes "getCodeQLActionRepository E = Inr repo"
  shows "\<exists>u asked. getCodeQLBundleDownloadURL E tagName apiDetails variant = Inr (u, asked)"
  using assms
  by (cases "lookupDownloadSources E tagName (uniqueDownloadSources E apiDetails repo)")
     (auto simp: getCodeQLBundleDownloadURL_def split: option.splits)

section \<open>Properties of the pipeline steps\<close>

lemma io_spec_return: "Q a \<Longrightarrow> io_spec (io_return a) P Q"
  by (simp add: io_spec_def io_return_def)

lemma io_spec_bind:
  assumes "io_spec m P R" and "\<And>a. R a \<Longrightarrow> io_spec (f a) P Q"
  shows "io_spec (io_bind m f) P Q"
  unfolding io_spec_def
proof
  fix trace
  from assms(1) obtain new where m: "snd (m trace) = trace @ new" "list_all P new"
    "\<forall>a. fst (m trace) = Inr a \<longrightarrow> R a" unfolding io_spec_def by blast
  show "\<exists>new. snd (io_bind m f trace) = trace @ new \<and> list_all P new
          \<and> (\<forall>a. fst (io_bind m f trace) = Inr a \<longrightarrow> Q a)"
  proof (cases "fst (m trace)")
    case (Inl e)
    then have "io_bind m f trace = (Inl e, trace @ new)"
      using m(1) by (cases "m trace") (simp add: io_bind_def)
    with m(2) show ?thesis by simp
  next
    case (Inr a)
    then have b: "io_bind m f trace = f a (trace @ new)"
      using m(1) by (cases "m trace") (simp add: io_bind_def)
    from Inr m(3) have "R a" by simp
    from assms(2)[OF this] obtain new' where
      "snd (f a (trace @ new)) = (trace @ new) @ new'" "list_all P new'"
      "\<forall>b. fst (f a (trace @ new)) = Inr b \<longrightarrow> Q b" unfolding io_spec_def by blast
    with m(2) b show ?thesis by (intro exI[of _ "new @ new'"]) simp
  qed
qed

lemma io_spec_lift: "(\<And>a. x = Inr a \<Longrightarrow> Q a) \<Longrightarrow> io_spec (io_lift x) P Q"
  by (simp add: io_spec_def io_lift_def)

lemma io_spec_call: "P ev \<Longrightarrow> (\<And>a. x = Inr a \<Longrightarrow> Q a) \<Longrightarrow> io_spec (io_call ev x) P Q"
  by (simp add: io_spec_def io_call_def)

lemma io_spec_bind_lift:
  "(\<And>a. x = Inr a \<Longrightarrow> io_spec (f a) P Q) \<Longrightarrow> io_spec (io_bind (io_lift x) f) P Q"
  by (rule io_spec_bind[where R = "\<lambda>a. x = Inr a"]) (auto intro: io_spec_lift)

lemma io_spec_bind_call:
  "P ev \<Longrightarrow> (\<And>a. x = Inr a \<Longrightarrow> io_spec (f a) P Q) \<Longrightarrow> io_spec (io_bind (io_call ev x) f) P Q"
  by (rule io_spec_bind[where R = "\<lambda>a. x = Inr a"]) (auto intro: io_spec_call)

lemma io_spec_bind_print:
  "io_spec (f ()) P Q \<Longrightarrow> io_spec (io_bind (printDiskSpace E n) f) P Q"
  unfolding printDiskSpace_def by (rule io_spec_bind_lift) simp

lemma io_spec_bind_catch:
  "P ev \<Longrightarrow> io_spec (f ()) P Q
     \<Longrightarrow> io_spec (io_bind (io_catch (io_call ev x) (\<lambda>e. io_return ())) f) P Q"
proof (rule io_spec_bind[where R = "\<lambda>a. True"])
  assume "P ev"
  then show "io_spec (io_catch (io_call ev x) (\<lambda>e. io_return ())) P (\<lambda>a. True)"
    by (cases x) (simp_all add: io_spec_def io_catch_def io_call_def io_return_def)
qed simp

lemma io_spec_case_option:
  "(x = None \<Longrightarrow> io_spec m P Q) \<Longrightarrow> (\<And>b. x = Some b \<Longrightarrow> io_spec (f b) P Q)
     \<Longrightarrow> io_spec (case x of None \<Rightarrow> m | Some b \<Rightarrow> f b) P Q"
  by (cases x) simp_all

lemmas io_spec_rules =
  io_spec_bind_lift io_spec_bind_print io_spec_bind_call io_spec_bind_catch
  io_spec_case_option io_spec_return

lemma io_spec_trace:
  "io_spec m P Q \<Longrightarrow> \<exists>new. snd (m trace) = trace @ new \<and> list_all P new"
  by (auto simp: io_spec_def)

lemma io_spec_event: "io_spec m P Q \<Longrightarrow> ev \<in> set (snd (m [])) \<Longrightarrow> P ev"
  using io_spec_trace[of m P Q "[]"] by (auto simp: list_all_iff)

lemma io_spec_result: "io_spec m P Q \<Longrightarrow> fst (m trace) = Inr a \<Longrightarrow> Q a"
  by (auto simp: io_spec_def)

lemma downloadCodeQL_spec:
  "io_spec (downloadCodeQL E codeqlURL maybeBundleVersion maybeCliVersion apiDetails variant tempDir)
     (\<lambda>ev. case ev of
        DownloadTool u dest a h \<Rightarrow>
          \<exists>search. new_URL_search E codeqlURL = Inr search
            \<and> u = codeqlURL
            \<and> a = authorizationFor E apiDetails codeqlURL search
            \<and> h = [(''User-Agent'', ''CodeQL Action''), (''accept'', ''application/octet-stream'')]
      | CacheDir dir tool version \<Rightarrow>
          \<exists>bundleVersion.
            (case maybeBundleVersion of None \<Rightarrow> tryGetBundleVersionFromUrl codeqlURL | Some b \<Rightarrow> Some b)
              = Some bundleVersion
            \<and> tool = ''CodeQL''
            \<and> toolcacheVersionFor E
                 (recoverCliVersion E variant codeqlURL bundleVersion maybeCliVersion) bundleVersion
               = Inr version
      | _ \<Rightarrow> True)
     (\<lambda>r. case (case maybeBundleVersion of None \<Rightarrow> tryGetBundleVersionFromUrl codeqlURL | Some b \<Rightarrow> Some b) of
        None \<Rightarrow>
          result_toolsVersion r = (case maybeCliVersion of None \<Rightarrow> ''unknown'' | Some v \<Rightarrow> v)
          \<and> (\<exists>codeqlPath. toolcache_extractTar E codeqlPath = Inr (result_codeqlFolder r))
      | Some bundleVersion \<Rightarrow>
          \<exists>version.
            toolcacheVersionFor E
              (recoverCliVersion E variant codeqlURL bundleVersion maybeCliVersion) bundleVersion
              = Inr version
            \<and> result_toolsVersion r =
                (case recoverCliVersion E variant codeqlURL bundleVersion maybeCliVersion of
                   None \<Rightarrow> version | Some v \<Rightarrow> v)
            \<and> (\<exists>dir. toolcache_cacheDir E dir ''CodeQL'' version = Inr (result_codeqlFolder r)))"
  unfolding downloadCodeQL_def Let_def
  by (intro io_spec_rules) auto

lemma io_ok_return: "io_ok (io_return a)"
  by (simp add: io_ok_def io_return_def)

lemma io_ok_bind_lift: "x = Inr a \<Longrightarrow> io_ok (f a) \<Longrightarrow> io_ok (io_bind (io_lift x) f)"
  by (simp add: io_ok_def io_bind_def io_lift_def)

lemma io_ok_bind_call: "\<exists>a. x = Inr a \<Longrightarrow> (\<And>a. io_ok (f a)) \<Longrightarrow> io_ok (io_bind (io_call ev x) f)"
  by (auto simp: io_ok_def io_bind_def io_call_def)

lemma io_ok_bind_print:
  "\<exists>info. checkDiskSpace E n = Inr info \<Longrightarrow> io_ok (f ()) \<Longrightarrow> io_ok (io_bind (printDiskSpace E n) f)"
  by (auto simp: io_ok_def io_bind_def io_lift_def printDiskSpace_def)

lemma io_ok_bind_catch:
  "io_ok (f ()) \<Longrightarrow> io_ok (io_bind (io_catch (io_call ev x) (\<lambda>e. io_return ())) f)"
  by (cases x) (auto simp: io_ok_def io_bind_def io_call_def io_catch_def io_return_def)

lemma takeWhile_digits_dot:
  "list_all isAsciiDigit a \<Longrightarrow> takeWhile isAsciiDigit (a @ CHR ''.'' # r) = a"
  by (induction a) (auto simp: isAsciiDigit_def)

lemma dropWhile_digits_dot:
  "list_all isAsciiDigit a \<Longrightarrow> dropWhile isAsciiDigit (a @ CHR ''.'' # r) = CHR ''.'' # r"
  by (induction a) (auto simp: isAsciiDigit_def)

lemma matchStableVersionRegex_iff:
  "matchStableVersionRegex s \<longleftrightarrow>
     (\<exists>x y z. s = x @ ''.'' @ y @ ''.'' @ z \<and> x \<noteq> [] \<and> y \<noteq> [] \<and> z \<noteq> []
        \<and> list_all isAsciiDigit (x @ y @ z))"
proof
  assume m: "matchStableVersionRegex s"
  define x where "x = takeWhile isAsciiDigit s"
  define r where "r = dropWhile isAsciiDigit s"
  have s: "s = x @ r" by (simp add: x_def r_def)
  from m obtain rest where r': "r = CHR ''.'' # rest" and x0: "x \<noteq> []"
    unfolding matchStableVersionRegex_def Let_def x_def[symmetric] r_def[symmetric]
    by (cases r) auto
  define y where "y = takeWhile isAsciiDigit rest"
  define q where "q = dropWhile isAsciiDigit rest"
  have rest: "rest = y @ q" by (simp add: y_def q_def)
  from m r' x0 obtain z where q': "q = CHR ''.'' # z" and y0: "y \<noteq> []"
    and z: "z \<noteq> []" "list_all isAsciiDigit z"
    unfolding matchStableVersionRegex_def Let_def x_def[symmetric] r_def[symmetric]
    by (cases q) (auto simp: y_def[symmetric] q_def[symmetric])
  have "list_all isAsciiDigit x" "list_all isAsciiDigit y"
    unfolding x_def y_def list_all_iff by (auto dest: set_takeWhileD)
  with s r' rest q' x0 y0 z show "\<exists>x y z. s = x @ ''.'' @ y @ ''.'' @ z \<and> x \<noteq> [] \<and> y \<noteq> [] \<and> z \<noteq> []
        \<and> list_all isAsciiDigit (x @ y @ z)"
    by (intro exI[of _ x] exI[of _ y] exI[of _ z]) simp
next
  assume "\<exists>x y z. s = x @ ''.'' @ y @ ''.'' @ z \<and> x \<noteq> [] \<and> y \<noteq> [] \<and> z \<noteq> []
        \<and> list_all isAsciiDigit (x @ y @ z)"
  then obtain x y z where s: "s = x @ CHR ''.'' # y @ CHR ''.'' # z"
    and ne: "x \<noteq> []" "y \<noteq> []" "z \<noteq> []"
    and d: "list_all isAsciiDigit x" "list_all isAsciiDigit y" "list_all isAsciiDigit z"
    by auto
  show "matchStableVersionRegex s"
    unfolding matchStableVersionRegex_def Let_def s
    using ne d by (simp add: takeWhile_digits_dot dropWhile_digits_dot)
qed

lemma io_bind_lift_Inr: "io_bind (io_lift (Inr a)) f = f a"
  by (simp add: io_bind_def io_lift_def)

lemma io_bind_print_ok:
  "checkDiskSpace E n = Inr info \<Longrightarrow> io_bind (printDiskSpace E n) f = f ()"
  by (simp add: io_bind_def io_lift_def printDiskSpace_def)

lemma io_bind_call_first:
  assumes "\<And>a. io_spec (f a) (\<lambda>ev. True) (\<lambda>r. True)"
  shows "\<exists>new. snd (io_bind (io_call ev x) f []) = ev # new"
proof (cases x)
  case (Inl e)
  then show ?thesis by (simp add: io_bind_def io_call_def)
next
  case (Inr a)
  from io_spec_trace[OF assms, of a "[ev]"] Inr show ?thesis
    by (auto simp: io_bind_def io_call_def)
qed

lemma authorizationFor_iff:
  "authorizationFor E apiDetails codeqlURL search =
     (if \<not> searchParams_has E search ''token'' \<and> prefix (api_url apiDetails @ ''/'') codeqlURL
      then Some (''token '' @ api_auth apiDetails) else None)"
  by (simp add: authorizationFor_def)

lemma afterScheme_scheme:
  "CHR '':'' \<notin> set scheme \<Longrightarrow> afterScheme (scheme @ ''://'' @ rest) = rest"
  by (induction scheme) auto

lemma takeWhile_upto_slash:
  "CHR ''/'' \<notin> set host \<Longrightarrow> takeWhile (\<lambda>c. c \<noteq> CHR ''/'') (host @ CHR ''/'' # path) = host"
  by (induction host) auto

lemma hostOfUrl_endpoint:
  assumes "CHR '':'' \<notin> set scheme" and "CHR ''/'' \<notin> set host"
  shows "hostOfUrl (scheme @ ''://'' @ host) = host"
    and "hostOfUrl ((scheme @ ''://'' @ host) @ ''/'' @ path) = host"
proof -
  have 1: "afterScheme (scheme @ ''://'' @ host) = host"
    using assms(1) by (rule afterScheme_scheme)
  have "takeWhile (\<lambda>c. c \<noteq> CHR ''/'') host = host"
    using assms(2) by (auto simp: takeWhile_eq_all_conv)
  then show "hostOfUrl (scheme @ ''://'' @ host) = host"
    unfolding hostOfUrl_def 1 .
  have "(scheme @ ''://'' @ host) @ ''/'' @ path = scheme @ ''://'' @ (host @ ''/'' @ path)"
    by simp
  then have 2: "afterScheme ((scheme @ ''://'' @ host) @ ''/'' @ path) = host @ ''/'' @ path"
    using afterScheme_scheme[OF assms(1), of "host @ ''/'' @ path"] by simp
  have "takeWhile (\<lambda>c. c \<noteq> CHR ''/'') (host @ ''/'' @ path) = host"
    using assms(2) by (simp add: takeWhile_upto_slash)
  then show "hostOfUrl ((scheme @ ''://'' @ host) @ ''/'' @ path) = host"
    unfolding hostOfUrl_def 2 .
qed

text \<open>
  A token is only sent to the host of the job: when the endpoint is a scheme, \<open>://\<close> and
  a host, a URL that starts with the endpoint and a slash has the host of the endpoint.
\<close>

lemma hostOfUrl_prefix:
  assumes "endpoint = scheme @ ''://'' @ host"
    and "CHR '':'' \<notin> set scheme" and "CHR ''/'' \<notin> set host"
    and "prefix (endpoint @ ''/'') u"
  shows "hostOfUrl u = host \<and> hostOfUrl endpoint = host"
proof -
  from assms(4) obtain path where "u = (endpoint @ ''/'') @ path" by (auto simp: prefix_def)
  then have "u = (scheme @ ''://'' @ host) @ ''/'' @ path" using assms(1) by simp
  with hostOfUrl_endpoint[OF assms(2,3)] assms(1) show ?thesis by metis
qed

section \<open>Properties of the model of semver\<close>


lemma splitOn_not_Nil [simp]: "splitOn sep s \<noteq> []"
  by (induction s) (auto split: list.splits)

lemma concat_splitOn: "concat (map ((#) sep) (splitOn sep s)) = sep # s"
proof (induction s)
  case Nil
  then show ?case by simp
next
  case (Cons c cs)
  then show ?case by (cases "splitOn sep cs") auto
qed

lemma chars_of_splitOn:
  assumes "\<forall>p \<in> set (splitOn sep s). \<forall>c \<in> set p. P c"
  shows "\<forall>c \<in> set s. P c \<or> c = sep"
proof -
  have "set (sep # s) = set (concat (map ((#) sep) (splitOn sep s)))"
    by (simp add: concat_splitOn)
  then have "set s \<subseteq> insert sep (\<Union>p \<in> set (splitOn sep s). set p)" by auto
  with assms show ?thesis by blast
qed

lemma digit_letterDashNumber: "isAsciiDigit c \<Longrightarrow> isLetterDashNumber c"
  by (auto simp: isAsciiDigit_def isLetterDashNumber_def)

lemma numericIdentifier_digits: "numericIdentifier n \<Longrightarrow> n \<noteq> [] \<and> list_all isAsciiDigit n"
  by (auto simp: numericIdentifier_def isAsciiDigit_def)

lemma prereleaseIdentifier_chars: "prereleaseIdentifier n \<Longrightarrow> list_all isLetterDashNumber n"
  using numericIdentifier_digits[of n] digit_letterDashNumber
  by (auto simp: prereleaseIdentifier_def list_all_iff)

lemma mainVersion_shape:
  assumes "mainVersion m"
  shows "m \<noteq> [] \<and> isAsciiDigit (hd m) \<and> (\<forall>c \<in> set m. isLetterDashNumber c \<or> c = CHR ''.'')"
proof -
  from assms obtain a b c where sp: "splitOn (CHR ''.'') m = [a, b, c]"
    and n: "numericIdentifier a" "numericIdentifier b" "numericIdentifier c"
    unfolding mainVersion_def by (auto split: list.splits)
  from concat_splitOn[of "CHR ''.''" m] sp have m: "m = a @ CHR ''.'' # b @ CHR ''.'' # c" by simp
  from n(1) have a: "a \<noteq> []" "isAsciiDigit (hd a)"
    by (auto dest!: numericIdentifier_digits simp: list_all_iff)
  have "\<forall>p \<in> set (splitOn (CHR ''.'') m). \<forall>c \<in> set p. isLetterDashNumber c"
    unfolding sp using n digit_letterDashNumber
    by (auto dest!: numericIdentifier_digits simp: list_all_iff)
  from chars_of_splitOn[OF this] a m show ?thesis by (cases a) auto
qed

lemma prerelease_shape:
  assumes "list_all prereleaseIdentifier (splitOn (CHR ''.'') r)"
  shows "\<forall>c \<in> set r. isLetterDashNumber c \<or> c = CHR ''.''"
proof -
  have "\<forall>p \<in> set (splitOn (CHR ''.'') r). \<forall>c \<in> set p. isLetterDashNumber c"
    using assms by (auto simp: list_all_iff dest!: prereleaseIdentifier_chars)
  from chars_of_splitOn[OF this] show ?thesis .
qed

lemma not_whiteSpace: "isLetterDashNumber c \<or> c = CHR ''.'' \<Longrightarrow> \<not> isWhiteSpace c"
  by (auto simp: isLetterDashNumber_def isWhiteSpace_def)

lemma not_plus: "isLetterDashNumber c \<or> c = CHR ''.'' \<Longrightarrow> c \<noteq> CHR ''+''"
  by (auto simp: isLetterDashNumber_def)

lemma trim_id:
  assumes "\<forall>c \<in> set s. \<not> isWhiteSpace c"
  shows "trim s = s"
proof -
  have "dropWhile isWhiteSpace s = s" using assms by (cases s) auto
  moreover have "dropWhile isWhiteSpace (rev s) = rev s" using assms by (cases "rev s") auto
  ultimately show ?thesis by (simp add: trim_def)
qed

lemma length_trim: "length (trim s) \<le> length s"
proof -
  have "length (trim s) \<le> length (dropWhile isWhiteSpace s)"
    unfolding trim_def
    using length_dropWhile_le[of isWhiteSpace "rev (dropWhile isWhiteSpace s)"] by simp
  also have "\<dots> \<le> length s" by (rule length_dropWhile_le)
  finally show ?thesis .
qed

lemma semverParse_shape:
  assumes "semverParse y = Some s"
  shows "s \<noteq> [] \<and> isAsciiDigit (hd s) \<and> (\<forall>c \<in> set s. isLetterDashNumber c \<or> c = CHR ''.'')
         \<and> length s \<le> 256
         \<and> mainVersion (takeWhile (\<lambda>c. c \<noteq> CHR ''-'') s)
         \<and> (dropWhile (\<lambda>c. c \<noteq> CHR ''-'') s = []
             \<or> list_all prereleaseIdentifier
                 (splitOn (CHR ''.'') (tl (dropWhile (\<lambda>c. c \<noteq> CHR ''-'') s))))"
proof -
  define trimmed where "trimmed = trim y"
  define plain where "plain = (case trimmed of [] \<Rightarrow> [] | c # cs \<Rightarrow> if c = CHR ''v'' then cs else c # cs)"
  define versionPart where "versionPart = takeWhile (\<lambda>c. c \<noteq> CHR ''+'') plain"
  define prerelease where "prerelease = dropWhile (\<lambda>c. c \<noteq> CHR ''-'') versionPart"
  define main where "main = takeWhile (\<lambda>c. c \<noteq> CHR ''-'') versionPart"
  from assms have len: "length y \<le> 256"
    and mv: "mainVersion main"
    and pre: "prerelease = [] \<or> list_all prereleaseIdentifier (splitOn (CHR ''.'') (tl prerelease))"
    and s: "s = main @ prerelease"
    unfolding semverParse_def Let_def trimmed_def[symmetric] plain_def[symmetric]
      versionPart_def[symmetric] prerelease_def[symmetric] main_def[symmetric]
    by (auto split: if_splits)
  have sv: "s = versionPart" unfolding s main_def prerelease_def by simp
  have "length plain \<le> length trimmed" unfolding plain_def by (cases trimmed) auto
  moreover have "length versionPart \<le> length plain"
    unfolding versionPart_def by (rule length_takeWhile_le)
  moreover have "length trimmed \<le> length y" unfolding trimmed_def by (rule length_trim)
  ultimately have l: "length s \<le> 256" using len sv by simp
  from mainVersion_shape[OF mv] have m: "main \<noteq> []" "isAsciiDigit (hd main)"
    "\<forall>c \<in> set main. isLetterDashNumber c \<or> c = CHR ''.''" by auto
  have p: "\<forall>c \<in> set prerelease. isLetterDashNumber c \<or> c = CHR ''.''"
  proof (cases prerelease)
    case Nil
    then show ?thesis by simp
  next
    case (Cons d ds)
    then have "d = CHR ''-''"
      using hd_dropWhile[of "\<lambda>c. c \<noteq> CHR ''-''" versionPart] unfolding prerelease_def by auto
    moreover from pre Cons have "list_all prereleaseIdentifier (splitOn (CHR ''.'') ds)" by simp
    from prerelease_shape[OF this] have "\<forall>c \<in> set ds. isLetterDashNumber c \<or> c = CHR ''.''" .
    ultimately show ?thesis using Cons by (auto simp: isLetterDashNumber_def)
  qed
  have "s \<noteq> []" "isAsciiDigit (hd s)" using m s by auto
  moreover have "\<forall>c \<in> set s. isLetterDashNumber c \<or> c = CHR ''.''" using m(3) p s by auto
  moreover have "mainVersion (takeWhile (\<lambda>c. c \<noteq> CHR ''-'') s)"
    using mv unfolding sv main_def .
  moreover have "dropWhile (\<lambda>c. c \<noteq> CHR ''-'') s = []
             \<or> list_all prereleaseIdentifier
                 (splitOn (CHR ''.'') (tl (dropWhile (\<lambda>c. c \<noteq> CHR ''-'') s)))"
    using pre unfolding sv prerelease_def .
  ultimately show ?thesis using l by blast
qed

lemma semverParse_canonical:
  assumes "semverParse y = Some s"
  shows "semverParse s = Some s"
proof -
  from semverParse_shape[OF assms] have ne: "s \<noteq> []" and d: "isAsciiDigit (hd s)"
    and ch: "\<forall>c \<in> set s. isLetterDashNumber c \<or> c = CHR ''.''"
    and l: "length s \<le> 256"
    and mv: "mainVersion (takeWhile (\<lambda>c. c \<noteq> CHR ''-'') s)"
    and pre: "dropWhile (\<lambda>c. c \<noteq> CHR ''-'') s = []
             \<or> list_all prereleaseIdentifier
                 (splitOn (CHR ''.'') (tl (dropWhile (\<lambda>c. c \<noteq> CHR ''-'') s)))"
    by auto
  have t: "trim s = s" using ch not_whiteSpace by (intro trim_id) blast
  have pl: "(case s of [] \<Rightarrow> [] | c # cs \<Rightarrow> if c = CHR ''v'' then cs else c # cs) = s"
    using ne d by (cases s) (auto simp: isAsciiDigit_def)
  have vp: "takeWhile (\<lambda>c. c \<noteq> CHR ''+'') s = s"
    using ch not_plus by (auto simp: takeWhile_eq_all_conv)
  have b: "dropWhile (\<lambda>c. c \<noteq> CHR ''+'') s = []"
    using ch not_plus by (auto simp: dropWhile_eq_Nil_conv)
  show ?thesis
    unfolding semverParse_def Let_def t pl vp b
    using l mv pre by auto
qed

lemma semverModel_canonical:
  assumes "semverClean x = Some s"
  shows "truthy (semverValid s) \<and> semverClean s = Some s"
proof -
  from assms obtain y where y: "semverParse y = Some s" unfolding semverClean_def by blast
  from semverParse_shape[OF y] have ne: "s \<noteq> []" and d: "isAsciiDigit (hd s)"
    and ch: "\<forall>c \<in> set s. isLetterDashNumber c \<or> c = CHR ''.''" by auto
  have t: "trim s = s" using ch not_whiteSpace by (intro trim_id) blast
  have "dropWhile (\<lambda>c. c = CHR ''='' \<or> c = CHR ''v'') s = s"
    using ne d by (cases s) (auto simp: isAsciiDigit_def)
  with semverParse_canonical[OF y] t ne show ?thesis
    by (simp add: semverClean_def semverValid_def truthy_def)
qed

section \<open>Version normalizer: verified properties\<close>

text \<open>
  C8 (amended). For every \<open>X\<close> without a line terminator,
  \<open>tryGetBundleVersionFromTagName\<close> returns \<open>X\<close> on \<open>codeql-bundle-X\<close>; on every string that
  is not \<open>codeql-bundle-\<close> followed by a text free of line terminators it returns nothing.
\<close>

theorem tryGetBundleVersionFromTagName_strips_prefix:
  "(noLineTerminator X \<longrightarrow> tryGetBundleVersionFromTagName (''codeql-bundle-'' @ X) = Some X)
   \<and> ((\<nexists>Y. tagName = ''codeql-bundle-'' @ Y \<and> noLineTerminator Y)
        \<longrightarrow> tryGetBundleVersionFromTagName tagName = None)"
  by (auto simp: tryGetBundleVersionFromTagName_def matchTagNameRegex_def prefix_def)

theorem tryGetBundleVersionFromTagName_strips_prefix_witness:
  "tryGetBundleVersionFromTagName ''codeql-bundle-20230101'' = Some ''20230101''
   \<and> tryGetBundleVersionFromTagName ''v2.12.1'' = None"
  using tryGetBundleVersionFromTagName_strips_prefix[of "''20230101''" "''v2.12.1''"]
  by (simp add: noLineTerminator_def isLineTerminator_def)

text \<open>
  C8 as stated fails: the tag \<open>codeql-bundle-a\<close>, a line feed, \<open>b\<close> has the form
  \<open>codeql-bundle-X\<close>, and the dot of the expression does not pass the line feed.
\<close>

theorem tryGetBundleVersionFromTagName_line_feed_counterexample:
  "tryGetBundleVersionFromTagName (''codeql-bundle-'' @ [CHR ''a'', CHR 0x0A, CHR ''b''])
     \<noteq> Some [CHR ''a'', CHR 0x0A, CHR ''b'']"
  by (simp add: tryGetBundleVersionFromTagName_def matchTagNameRegex_def
      noLineTerminator_def isLineTerminator_def)

text \<open>
  What \<open>tryGetTagNameFromUrl\<close> returns, for every URL: nothing exactly when no
  \<open>/codeql-bundle-\<close> of the URL is followed by a slash on the same line; otherwise the
  text that starts at the first such \<open>codeql-bundle-\<close> and ends before the last slash of
  that line.
\<close>

lemma tryGetTagNameFromUrl_returns:
  "(tryGetTagNameFromUrl url = None \<longleftrightarrow>
      (\<nexists>p x s. url = p @ ''/codeql-bundle-'' @ x @ ''/'' @ s \<and> noLineTerminator x))
   \<and> (tryGetTagNameFromUrl url = Some t \<longleftrightarrow>
      (\<exists>p x s. t = ''codeql-bundle-'' @ x
         \<and> url = p @ ''/'' @ t @ ''/'' @ s
         \<and> noLineTerminator x
         \<and> CHR ''/'' \<notin> set (takeWhile (\<lambda>c. \<not> isLineTerminator c) s)
         \<and> (\<forall>p' x' s'. url = p' @ ''/codeql-bundle-'' @ x' @ ''/'' @ s' \<and> noLineTerminator x'
               \<longrightarrow> length p \<le> length p')))"
proof (intro conjI)
  have "tryGetTagNameFromUrl url = None \<longleftrightarrow> regexSearch matchBundleSegmentAt url = None"
    by (cases "regexSearch matchBundleSegmentAt url")
       (simp_all add: tryGetTagNameFromUrl_def matchTagNameInUrlRegex_def)
  then show "tryGetTagNameFromUrl url = None \<longleftrightarrow>
      (\<nexists>p x s. url = p @ ''/codeql-bundle-'' @ x @ ''/'' @ s \<and> noLineTerminator x)"
    by (simp only: regexSearch_segment_None_iff)
next
  have 2: "tryGetTagNameFromUrl url = Some t \<longleftrightarrow>
     (\<exists>x. t = ''codeql-bundle-'' @ x \<and> regexSearch matchBundleSegmentAt url = Some x)"
    by (cases "regexSearch matchBundleSegmentAt url")
       (auto simp: tryGetTagNameFromUrl_def matchTagNameInUrlRegex_def)
  have 3: "\<And>p x s. p @ ''/'' @ (''codeql-bundle-'' @ x) @ ''/'' @ s
                   = p @ ''/codeql-bundle-'' @ x @ ''/'' @ s" by simp
  show "tryGetTagNameFromUrl url = Some t \<longleftrightarrow>
      (\<exists>p x s. t = ''codeql-bundle-'' @ x
         \<and> url = p @ ''/'' @ t @ ''/'' @ s
         \<and> noLineTerminator x
         \<and> CHR ''/'' \<notin> set (takeWhile (\<lambda>c. \<not> isLineTerminator c) s)
         \<and> (\<forall>p' x' s'. url = p' @ ''/codeql-bundle-'' @ x' @ ''/'' @ s' \<and> noLineTerminator x'
               \<longrightarrow> length p \<le> length p'))" (is "?L \<longleftrightarrow> ?R")
  proof
    assume ?L
    then obtain x where t: "t = ''codeql-bundle-'' @ x"
      and r: "regexSearch matchBundleSegmentAt url = Some x" using 2 by blast
    from r[unfolded regexSearch_segment_Some_iff] obtain p s where
      "url = p @ ''/codeql-bundle-'' @ x @ ''/'' @ s" "noLineTerminator x"
      "CHR ''/'' \<notin> set (takeWhile (\<lambda>c. \<not> isLineTerminator c) s)"
      "\<forall>p' x' s'. url = p' @ ''/codeql-bundle-'' @ x' @ ''/'' @ s' \<and> noLineTerminator x'
              \<longrightarrow> length p \<le> length p'" by blast
    then show ?R unfolding t 3 by blast
  next
    assume ?R
    then obtain p x s where t: "t = ''codeql-bundle-'' @ x"
      and u: "url = p @ ''/'' @ t @ ''/'' @ s"
      and rest: "noLineTerminator x"
        "CHR ''/'' \<notin> set (takeWhile (\<lambda>c. \<not> isLineTerminator c) s)"
        "\<forall>p' x' s'. url = p' @ ''/codeql-bundle-'' @ x' @ ''/'' @ s' \<and> noLineTerminator x'
               \<longrightarrow> length p \<le> length p'" by blast
    from u have "url = p @ ''/codeql-bundle-'' @ x @ ''/'' @ s" unfolding t 3 .
    with rest have "regexSearch matchBundleSegmentAt url = Some x"
      unfolding regexSearch_segment_Some_iff by blast
    with t show ?L using 2 by blast
  qed
qed


text \<open>
  C9. The claim is that \<open>tryGetTagNameFromUrl\<close> returns the one path segment
  \<open>codeql-bundle-*\<close> between two slashes. The code does not: the dots of its expression
  also take slashes. On a mirror URL with a directory below the tag, and on the release
  URL of a repository whose own name starts with \<open>codeql-bundle-\<close>, the result runs over
  several path segments, and the resolver then throws on the URL, since the bundle
  version it reads from that result cannot be coerced to a semantic version.
\<close>

theorem tryGetTagNameFromUrl_runs_over_segments:
  "tryGetTagNameFromUrl
     ''https://example.com/mirror/codeql-bundle-20230101/linux64/codeql-bundle.tar.gz''
     = Some ''codeql-bundle-20230101/linux64''
   \<and> tryGetTagNameFromUrl
       ''https://github.com/octo/codeql-bundle-testing/releases/download/codeql-bundle-v2.19.0/codeql-bundle-linux64.tar.gz''
     = Some ''codeql-bundle-testing/releases/download/codeql-bundle-v2.19.0''
   \<and> getCodeQLSource dotcomRunner
       (Some ''https://example.com/mirror/codeql-bundle-20230101/linux64/codeql-bundle.tar.gz'')
       \<lparr>default_cliVersion = ''2.15.0'', default_tagName = ''codeql-bundle-v2.15.0''\<rparr>
       dotcomApi DOTCOM
     = Inl (Error ''Bundle version 0.0.0-20230101/linux64 is not in SemVer format.'')
   \<and> getCodeQLSource dotcomRunner
       (Some ''https://github.com/octo/codeql-bundle-testing/releases/download/codeql-bundle-v2.19.0/codeql-bundle-linux64.tar.gz'')
       \<lparr>default_cliVersion = ''2.15.0'', default_tagName = ''codeql-bundle-v2.15.0''\<rparr>
       dotcomApi DOTCOM
     = Inl (Error ''Bundle version 0.0.0-testing/releases/download/codeql-bundle-v2.19.0 is not in SemVer format.'')"
  by code_simp

text \<open>
  C10. \<open>getCodeQLURLVersion\<close> returns a version on every URL in which some
  \<open>/codeql-bundle-\<close> is followed by a slash on the same line, and throws the
  \<open>Malformed tools url\<close> error on every other string; the version returned is what the
  expression captures (from the first such occurrence to the last slash of its line).
  A result is a string or the error, never \<open>undefined\<close>.
\<close>

theorem getCodeQLURLVersion_version_or_error:
  "((\<exists>p x s. url = p @ ''/codeql-bundle-'' @ x @ ''/'' @ s \<and> noLineTerminator x)
       \<longrightarrow> (\<exists>v. getCodeQLURLVersion url = Inr v))
   \<and> ((\<nexists>p x s. url = p @ ''/codeql-bundle-'' @ x @ ''/'' @ s \<and> noLineTerminator x)
       \<longrightarrow> getCodeQLURLVersion url
            = Inl (Error (''Malformed tools url: '' @ url @ ''. Version could not be inferred'')))
   \<and> (getCodeQLURLVersion url = Inr v \<longleftrightarrow>
        (\<exists>p s. url = p @ ''/codeql-bundle-'' @ v @ ''/'' @ s
           \<and> noLineTerminator v
           \<and> CHR ''/'' \<notin> set (takeWhile (\<lambda>c. \<not> isLineTerminator c) s)
           \<and> (\<forall>p' x' s'. url = p' @ ''/codeql-bundle-'' @ x' @ ''/'' @ s' \<and> noLineTerminator x'
                 \<longrightarrow> length p \<le> length p')))"
proof (intro conjI impI)
  assume "\<exists>p x s. url = p @ ''/codeql-bundle-'' @ x @ ''/'' @ s \<and> noLineTerminator x"
  then have "regexSearch matchBundleSegmentAt url \<noteq> None"
    unfolding regexSearch_segment_None_iff by simp
  then obtain x where "regexSearch matchBundleSegmentAt url = Some x" by auto
  then show "\<exists>v. getCodeQLURLVersion url = Inr v"
    by (simp add: getCodeQLURLVersion_def matchVersionInUrlRegex_def)
next
  assume "\<nexists>p x s. url = p @ ''/codeql-bundle-'' @ x @ ''/'' @ s \<and> noLineTerminator x"
  then have "regexSearch matchBundleSegmentAt url = None"
    unfolding regexSearch_segment_None_iff .
  then show "getCodeQLURLVersion url
      = Inl (Error (''Malformed tools url: '' @ url @ ''. Version could not be inferred''))"
    by (simp add: getCodeQLURLVersion_def matchVersionInUrlRegex_def)
next
  have "getCodeQLURLVersion url = Inr v \<longleftrightarrow> regexSearch matchBundleSegmentAt url = Some v"
    by (cases "regexSearch matchBundleSegmentAt url")
       (auto simp: getCodeQLURLVersion_def matchVersionInUrlRegex_def)
  then show "getCodeQLURLVersion url = Inr v \<longleftrightarrow>
        (\<exists>p s. url = p @ ''/codeql-bundle-'' @ v @ ''/'' @ s
           \<and> noLineTerminator v
           \<and> CHR ''/'' \<notin> set (takeWhile (\<lambda>c. \<not> isLineTerminator c) s)
           \<and> (\<forall>p' x' s'. url = p' @ ''/codeql-bundle-'' @ x' @ ''/'' @ s' \<and> noLineTerminator x'
                 \<longrightarrow> length p \<le> length p'))"
    by (simp only: regexSearch_segment_Some_iff)
qed

theorem getCodeQLURLVersion_version_or_error_witness:
  "getCodeQLURLVersion
     ''https://github.com/github/codeql-action/releases/download/codeql-bundle-20230101/codeql-bundle-linux64.tar.gz''
     = Inr ''20230101''
   \<and> getCodeQLURLVersion ''https://example.com/tools.tar.gz''
     = Inl (Error ''Malformed tools url: https://example.com/tools.tar.gz. Version could not be inferred'')"
proof -
  have 1: "getCodeQLURLVersion
     ''https://github.com/github/codeql-action/releases/download/codeql-bundle-20230101/codeql-bundle-linux64.tar.gz''
     = Inr ''20230101''"
    by (simp add: getCodeQLURLVersion_def matchVersionInUrlRegex_def matchBundleSegmentAt_def
        greedyUpToSlash_def isLineTerminator_def)
  have "regexSearch matchBundleSegmentAt ''https://example.com/tools.tar.gz'' = None"
    by (simp add: matchBundleSegmentAt_def)
  then have "\<nexists>p x s. ''https://example.com/tools.tar.gz'' = p @ ''/codeql-bundle-'' @ x @ ''/'' @ s
       \<and> noLineTerminator x"
    unfolding regexSearch_segment_None_iff .
  with getCodeQLURLVersion_version_or_error[of "''https://example.com/tools.tar.gz''"]
  have "getCodeQLURLVersion ''https://example.com/tools.tar.gz''
     = Inl (Error (''Malformed tools url: '' @ ''https://example.com/tools.tar.gz''
          @ ''. Version could not be inferred''))" by blast
  with 1 show ?thesis by simp
qed

section \<open>Version normalizer: idempotence of the coercion\<close>

text \<open>
  C2. \<open>convertToSemVer\<close> is idempotent: when it returns \<open>s\<close> on \<open>v\<close>, it returns \<open>s\<close> on
  \<open>s\<close>. The package \<open>semver\<close> enters through its contract: a version that \<open>clean\<close>
  returns is one that \<open>valid\<close> accepts and \<open>clean\<close> leaves as it is. The model of the
  strict grammar meets the contract (\<open>semverModel_canonical\<close>).
\<close>

theorem convertToSemVer_idempotent:
  assumes canonical: "\<forall>x s. semver_clean E x = Some s \<and> s \<noteq> []
                         \<longrightarrow> truthy (semver_valid E s) \<and> semver_clean E s = Some s"
    and v: "convertToSemVer E v = Inr s"
  shows "convertToSemVer E s = Inr s"
proof -
  from v obtain x where "semver_clean E x = Some s" and s: "s \<noteq> []"
    unfolding convertToSemVer_def Let_def by (auto split: option.splits if_splits)
  with canonical have "truthy (semver_valid E s) \<and> semver_clean E s = Some s" by blast
  then show ?thesis
    using s by (simp add: convertToSemVer_def)
qed

theorem convertToSemVer_idempotent_witness:
  "convertToSemVer dotcomRunner ''20230101'' = Inr ''0.0.0-20230101''
   \<and> convertToSemVer dotcomRunner ''0.0.0-20230101'' = Inr ''0.0.0-20230101''"
proof -
  have c: "\<forall>x s. semver_clean dotcomRunner x = Some s \<and> s \<noteq> []
             \<longrightarrow> truthy (semver_valid dotcomRunner s) \<and> semver_clean dotcomRunner s = Some s"
    using semverModel_canonical by (auto simp: dotcomRunner_def)
  have e: "convertToSemVer dotcomRunner ''20230101'' = Inr ''0.0.0-20230101''"
    by code_simp
  from convertToSemVer_idempotent[OF c e] e show ?thesis by simp
qed

section \<open>Tool source resolver: the lookup by tag-suffixed version\<close>

text \<open>
  C3. The resolver has a known CLI version (not empty), and the exact lookup in the
  toolcache misses. If exactly one cached version starts with the CLI version and a
  dash, and the toolcache holds a folder for it, the result is the toolcache source with
  that folder. If no or several cached versions start so, the lookup by CLI version
  yields no folder and the resolver goes on; when the lookup by the coerced version
  finds nothing either, no pinned version overrides, and the URL is given or the
  repository of the Action is known, the result is a download source.
\<close>

theorem getCodeQLSource_tag_suffixed_lookup:
  assumes notLocal: "\<not> (truthy toolsInput \<and> toolsInput \<noteq> Some ''latest''
                         \<and> \<not> prefix ''http'' (the toolsInput))"
    and req: "requestedVersion E toolsInput defaultCliVersion = Inr (Some cliVersion, tagName, url)"
    and known: "cliVersion \<noteq> []"
    and miss: "toolcache_find E ''CodeQL'' cliVersion = []"
  shows "(\<forall>version.
            filter (\<lambda>v. prefix (cliVersion @ ''-'') v) (toolcache_findAllVersions E ''CodeQL'') = [version]
            \<and> toolcache_find E ''CodeQL'' version \<noteq> []
            \<longrightarrow> getCodeQLSource E toolsInput defaultCliVersion apiDetails variant
                  = Inr (Toolcache (toolcache_find E ''CodeQL'' version) cliVersion))
     \<and> (length (filter (\<lambda>v. prefix (cliVersion @ ''-'') v) (toolcache_findAllVersions E ''CodeQL'')) \<noteq> 1
          \<longrightarrow> lookupByCliVersion E (Some cliVersion) = Some []
              \<and> ((\<exists>folder. lookupByFallbackVersion E (Some []) tagName = Inr folder \<and> \<not> truthy folder)
                  \<and> (variant \<noteq> DOTCOM \<and> \<not> truthy toolsInput \<longrightarrow> findOverridingToolsInCache E = None)
                  \<and> (truthy url \<or> (\<exists>repo. getCodeQLActionRepository E = Inr repo))
                  \<longrightarrow> (\<exists>u. getCodeQLSource E toolsInput defaultCliVersion apiDetails variant
                         = Inr (Download (andThen tagName tryGetBundleVersionFromTagName)
                                  (Some cliVersion) u cliVersion))))"
proof (intro conjI allI impI)
  fix version
  assume a: "filter (\<lambda>v. prefix (cliVersion @ ''-'') v) (toolcache_findAllVersions E ''CodeQL'') = [version]
            \<and> toolcache_find E ''CodeQL'' version \<noteq> []"
  then have l: "lookupByCliVersion E (Some cliVersion) = Some (toolcache_find E ''CodeQL'' version)"
    using known miss by (simp add: lookupByCliVersion_def truthy_def Let_def)
  have f: "lookupByFallbackVersion E (Some (toolcache_find E ''CodeQL'' version)) tagName
             = Inr (Some (toolcache_find E ''CodeQL'' version))"
    using a by (simp add: lookupByFallbackVersion_def truthy_def)
  show "getCodeQLSource E toolsInput defaultCliVersion apiDetails variant
                  = Inr (Toolcache (toolcache_find E ''CodeQL'' version) cliVersion)"
    using notLocal a unfolding getCodeQLSource_def req
    by (simp add: humanReadableVersion_def l f truthy_def)
next
  assume n: "length (filter (\<lambda>v. prefix (cliVersion @ ''-'') v) (toolcache_findAllVersions E ''CodeQL'')) \<noteq> 1"
  then show l: "lookupByCliVersion E (Some cliVersion) = Some []"
    using known miss by (simp add: lookupByCliVersion_def truthy_def Let_def)
  assume rest: "(\<exists>folder. lookupByFallbackVersion E (Some []) tagName = Inr folder \<and> \<not> truthy folder)
                  \<and> (variant \<noteq> DOTCOM \<and> \<not> truthy toolsInput \<longrightarrow> findOverridingToolsInCache E = None)
                  \<and> (truthy url \<or> (\<exists>repo. getCodeQLActionRepository E = Inr repo))"
  then obtain folder where f: "lookupByFallbackVersion E (Some []) tagName = Inr folder"
    and nf: "\<not> truthy folder" by blast
  from rest have o: "(if variant \<noteq> DOTCOM \<and> toolsInput \<noteq> Some ''latest'' \<and> \<not> truthy toolsInput
            then findOverridingToolsInCache E else None) = None" by simp
  have "\<exists>u. (if \<not> truthy url
                 then map_sum id fst (getCodeQLBundleDownloadURL E tagName apiDetails variant)
                 else Inr (the url)) = Inr u"
  proof (cases "truthy url")
    case True
    then show ?thesis by simp
  next
    case False
    with rest obtain repo where "getCodeQLActionRepository E = Inr repo" by blast
    from getCodeQLBundleDownloadURL_returns[OF this, of tagName apiDetails variant] False
    show ?thesis by auto
  qed
  then obtain u where u: "(if \<not> truthy url
                 then map_sum id fst (getCodeQLBundleDownloadURL E tagName apiDetails variant)
                 else Inr (the url)) = Inr u" by blast
  have "overrideOrDownload E toolsInput apiDetails variant (Some cliVersion) tagName url cliVersion
          = Inr (Download (andThen tagName tryGetBundleVersionFromTagName) (Some cliVersion) u cliVersion)"
    unfolding overrideOrDownload_def o u by simp
  then have "getCodeQLSource E toolsInput defaultCliVersion apiDetails variant
                         = Inr (Download (andThen tagName tryGetBundleVersionFromTagName)
                                  (Some cliVersion) u cliVersion)"
    using notLocal nf unfolding getCodeQLSource_def req
    by (simp add: humanReadableVersion_def l f)
  then show "\<exists>u. getCodeQLSource E toolsInput defaultCliVersion apiDetails variant
                         = Inr (Download (andThen tagName tryGetBundleVersionFromTagName)
                                  (Some cliVersion) u cliVersion)" by blast
qed

theorem getCodeQLSource_tag_suffixed_lookup_witness:
  "getCodeQLSource (withToolcache [''2.12.1-20230101''] dotcomRunner) None
     \<lparr>default_cliVersion = ''2.12.1'', default_tagName = ''codeql-bundle-20230101''\<rparr>
     dotcomApi DOTCOM
     = Inr (Toolcache ''/opt/hostedtoolcache/CodeQL/2.12.1-20230101/x64'' ''2.12.1'')
   \<and> (\<exists>u. getCodeQLSource (withToolcache [''2.12.1-20230101'', ''2.12.1-20230102''] dotcomRunner) None
          \<lparr>default_cliVersion = ''2.12.1'', default_tagName = ''codeql-bundle-20230101''\<rparr>
          dotcomApi DOTCOM
          = Inr (Download (Some ''20230101'') (Some ''2.12.1'') u ''2.12.1''))"
proof -
  let ?d = "\<lparr>default_cliVersion = ''2.12.1'', default_tagName = ''codeql-bundle-20230101''\<rparr>"
  let ?one = "withToolcache [''2.12.1-20230101''] dotcomRunner"
  let ?two = "withToolcache [''2.12.1-20230101'', ''2.12.1-20230102''] dotcomRunner"
  have notLocal: "\<not> (truthy None \<and> None \<noteq> Some ''latest'' \<and> \<not> prefix ''http'' (the None))"
    by (simp add: truthy_def)
  have req: "requestedVersion E None ?d
               = Inr (Some ''2.12.1'', Some ''codeql-bundle-20230101'', None)" for E
    by (simp add: requestedVersion_def)
  have known: "''2.12.1'' \<noteq> []" by simp
  have miss1: "toolcache_find ?one ''CodeQL'' ''2.12.1'' = []"
    and miss2: "toolcache_find ?two ''CodeQL'' ''2.12.1'' = []"
    by (simp_all add: withToolcache_def)
  have one: "filter (\<lambda>v. prefix (''2.12.1'' @ ''-'') v) (toolcache_findAllVersions ?one ''CodeQL'')
               = [''2.12.1-20230101'']
             \<and> toolcache_find ?one ''CodeQL'' ''2.12.1-20230101'' \<noteq> []"
    by (simp add: withToolcache_def)
  have two: "length (filter (\<lambda>v. prefix (''2.12.1'' @ ''-'') v)
               (toolcache_findAllVersions ?two ''CodeQL'')) \<noteq> 1"
    by (simp add: withToolcache_def)
  have fallback: "lookupByFallbackVersion ?two (Some []) (Some ''codeql-bundle-20230101'') = Inr (Some [])"
    by code_simp
  have repo: "getCodeQLActionRepository ?two = Inr ''github/codeql-action''"
    by (simp add: getCodeQLActionRepository_def withToolcache_def dotcomRunner_def)
  have bv: "andThen (Some ''codeql-bundle-20230101'') tryGetBundleVersionFromTagName = Some ''20230101''"
    by code_simp
  from getCodeQLSource_tag_suffixed_lookup[OF notLocal req known miss1, of dotcomApi DOTCOM] one
  have 1: "getCodeQLSource ?one None ?d dotcomApi DOTCOM
     = Inr (Toolcache (toolcache_find ?one ''CodeQL'' ''2.12.1-20230101'') ''2.12.1'')"
    by blast
  have f: "toolcache_find ?one ''CodeQL'' ''2.12.1-20230101''
             = ''/opt/hostedtoolcache/CodeQL/2.12.1-20230101/x64''"
    by (simp add: withToolcache_def)
  from getCodeQLSource_tag_suffixed_lookup[OF notLocal req known miss2, of dotcomApi DOTCOM]
    two fallback repo
  have 2: "\<exists>u. getCodeQLSource ?two None ?d dotcomApi DOTCOM
     = Inr (Download (andThen (Some ''codeql-bundle-20230101'') tryGetBundleVersionFromTagName)
              (Some ''2.12.1'') u ''2.12.1'')"
    by (simp add: truthy_def)
  from 1 2 show ?thesis unfolding f bv by simp
qed

section \<open>Candidate source enumerator: no duplicates, GitHub.com last\<close>

text \<open>
  C5. For every endpoint and every repository of the Action, the list of sources has no
  pair twice, it keeps the first of equal pairs in the order of the candidates, and it
  ends with the pair of GitHub.com and the canonical repository.
\<close>

theorem uniqueDownloadSources_distinct_dotcom_last:
  "distinct (uniqueDownloadSources E apiDetails repo)
   \<and> uniqueDownloadSources E apiDetails repo \<noteq> []
   \<and> last (uniqueDownloadSources E apiDetails repo)
       = (GITHUB_DOTCOM_URL E, CODEQL_DEFAULT_ACTION_REPOSITORY)
   \<and> set (uniqueDownloadSources E apiDetails repo)
       = set (potentialDownloadSources E apiDetails repo)
   \<and> uniqueDownloadSources E apiDetails repo
       = (api_url apiDetails, repo)
         # (if repo = CODEQL_DEFAULT_ACTION_REPOSITORY then []
            else [(api_url apiDetails, CODEQL_DEFAULT_ACTION_REPOSITORY)])
         @ (if api_url apiDetails = GITHUB_DOTCOM_URL E then []
            else [(GITHUB_DOTCOM_URL E, CODEQL_DEFAULT_ACTION_REPOSITORY)])"
  unfolding uniqueDownloadSources_def
  by (auto simp: distinct_filterOutDuplicates set_filterOutDuplicates
      potentialDownloadSources_def filterOutDuplicates_three)

theorem uniqueDownloadSources_distinct_dotcom_last_witness:
  "uniqueDownloadSources dotcomRunner enterpriseApi ''octo/codeql-action''
     = [(''https://ghe.example.com'', ''octo/codeql-action''),
        (''https://ghe.example.com'', ''github/codeql-action''),
        (''https://github.com'', ''github/codeql-action'')]
   \<and> uniqueDownloadSources dotcomRunner dotcomApi ''github/codeql-action''
     = [(''https://github.com'', ''github/codeql-action'')]"
  using uniqueDownloadSources_distinct_dotcom_last[of dotcomRunner enterpriseApi "''octo/codeql-action''"]
    uniqueDownloadSources_distinct_dotcom_last[of dotcomRunner dotcomApi "''github/codeql-action''"]
  by (simp add: dotcomRunner_def enterpriseApi_def dotcomApi_def CODEQL_DEFAULT_ACTION_REPOSITORY_def)

section \<open>Release asset locator: the fallback to the public URL\<close>

text \<open>
  C6 (amended). When the repository of the Action is known, \<open>getCodeQLBundleDownloadURL\<close> returns a
  URL for every tag name, and the loop asks each source at most once and never the
  pair of GitHub.com and the canonical repository. When the endpoint of the managed
  variant (if it is asked) and every source asked yield no asset, the URL returned is
  \<open>https://github.com/github/codeql-action/releases/download/<tagName>/<bundleName>\<close>.
\<close>

theorem getCodeQLBundleDownloadURL_falls_back_to_public_url:
  assumes repo: "getCodeQLActionRepository E = Inr repo"
  shows "(\<exists>u asked. getCodeQLBundleDownloadURL E (Some tagName) apiDetails variant = Inr (u, asked)
            \<and> distinct asked
            \<and> set asked \<subseteq> set (uniqueDownloadSources E apiDetails repo)
                 - {(GITHUB_DOTCOM_URL E, CODEQL_DEFAULT_ACTION_REPOSITORY)})
    \<and> ((variant = GHAE \<longrightarrow> lookupGHAE E (Some tagName) = None)
        \<and> (\<forall>(apiURL, repository) \<in> set (uniqueDownloadSources E apiDetails repo).
              (apiURL, repository) \<noteq> (GITHUB_DOTCOM_URL E, CODEQL_DEFAULT_ACTION_REPOSITORY)
                \<longrightarrow> lookupReleaseAsset E (Some tagName) repository = None)
        \<longrightarrow> (\<exists>asked. getCodeQLBundleDownloadURL E (Some tagName) apiDetails variant
              = Inr (''https://github.com/github/codeql-action/releases/download/''
                       @ tagName @ ''/'' @ getCodeQLBundleName E, asked)))"
proof -
  define sources where "sources = uniqueDownloadSources E apiDetails repo"
  define looked where "looked = lookupDownloadSources E (Some tagName) sources"
  have d: "distinct sources"
    unfolding sources_def uniqueDownloadSources_def by (rule distinct_filterOutDuplicates)
  have p: "prefix (fst looked) sources"
    unfolding looked_def by (rule lookupDownloadSources_asked_prefix)
  then obtain rest where rest: "sources = fst looked @ rest" by (auto simp: prefix_def)
  have da: "distinct (fst looked)" using d rest by (metis distinct_append)
  have sub: "set (fst looked) \<subseteq> set sources
                 - {(GITHUB_DOTCOM_URL E, CODEQL_DEFAULT_ACTION_REPOSITORY)}"
    using rest lookupDownloadSources_asked_not_dotcom[of E "Some tagName" sources]
    unfolding looked_def[symmetric] by (metis Diff_empty Un_upper1 set_append subset_Diff_insert)
  have 1: "\<exists>u asked. getCodeQLBundleDownloadURL E (Some tagName) apiDetails variant = Inr (u, asked)
            \<and> distinct asked
            \<and> set asked \<subseteq> set sources - {(GITHUB_DOTCOM_URL E, CODEQL_DEFAULT_ACTION_REPOSITORY)}"
    using da sub
    by (cases looked; cases "snd looked")
       (auto simp: getCodeQLBundleDownloadURL_def repo looked_def[symmetric] sources_def[symmetric]
          split: option.splits)
  have 2: "\<exists>asked. getCodeQLBundleDownloadURL E (Some tagName) apiDetails variant
              = Inr (''https://github.com/github/codeql-action/releases/download/''
                       @ tagName @ ''/'' @ getCodeQLBundleName E, asked)"
    if g: "variant = GHAE \<longrightarrow> lookupGHAE E (Some tagName) = None"
      and f: "\<forall>(apiURL, repository) \<in> set sources.
              (apiURL, repository) \<noteq> (GITHUB_DOTCOM_URL E, CODEQL_DEFAULT_ACTION_REPOSITORY)
                \<longrightarrow> lookupReleaseAsset E (Some tagName) repository = None"
  proof -
    have "snd looked = None"
      unfolding looked_def using f by (rule lookupDownloadSources_all_fail)
    then show ?thesis using g
      by (cases looked)
         (auto simp: getCodeQLBundleDownloadURL_def repo looked_def[symmetric]
            sources_def[symmetric] render_def CODEQL_DEFAULT_ACTION_REPOSITORY_def)
  qed
  from 1 2 show ?thesis unfolding sources_def by blast
qed

theorem getCodeQLBundleDownloadURL_falls_back_to_public_url_witness:
  "\<exists>asked. getCodeQLBundleDownloadURL dotcomRunner (Some ''codeql-bundle-20231114'') enterpriseApi GHES
     = Inr (''https://github.com/github/codeql-action/releases/download/codeql-bundle-20231114/codeql-bundle-linux64.tar.gz'',
            asked)"
proof -
  have repo: "getCodeQLActionRepository dotcomRunner = Inr ''github/codeql-action''"
    by (simp add: getCodeQLActionRepository_def dotcomRunner_def)
  have fail: "lookupReleaseAsset dotcomRunner tagName repository = None" for tagName repository
    by (simp add: lookupReleaseAsset_def dotcomRunner_def)
  have name: "getCodeQLBundleName dotcomRunner = ''codeql-bundle-linux64.tar.gz''"
    by (simp add: getCodeQLBundleName_def dotcomRunner_def)
  from getCodeQLBundleDownloadURL_falls_back_to_public_url[OF repo,
      of "''codeql-bundle-20231114''" enterpriseApi GHES]
  show ?thesis by (simp add: fail name)
qed

text \<open>
  C6 as stated fails: the repository of the Action is read before any lookup and
  outside every \<open>try\<close>. On a runner where the Action is not checked out locally and
  \<open>GITHUB_ACTION_REPOSITORY\<close> is not set, no source yields an asset, and the function
  throws the error of \<open>getRequiredEnvParam\<close> in place of returning the public URL.
\<close>

theorem getCodeQLBundleDownloadURL_repository_unknown_counterexample:
  "getCodeQLBundleDownloadURL
     (dotcomRunner \<lparr>getRequiredEnvParam :=
        (\<lambda>name. Inl (Error (name @ '' environment variable must be set'')))\<rparr>)
     (Some ''codeql-bundle-20231114'') dotcomApi DOTCOM
     = Inl (Error ''GITHUB_ACTION_REPOSITORY environment variable must be set'')"
  by code_simp

section \<open>Acquisition pipeline: a download without a bundle version\<close>

text \<open>
  C1 (amended). When no bundle version is passed in and none can be read from the URL,
  \<open>downloadCodeQL\<close> never calls \<open>cacheDir\<close>; a result it returns has the CLI version
  passed in as \<open>toolsVersion\<close>, or \<open>unknown\<close> when none was passed in, and its folder is
  what \<open>extractTar\<close> returned; and it does return a result when the URL parses and the
  disk probe, the download and the extraction succeed.
\<close>

theorem downloadCodeQL_without_bundle_version:
  assumes "tryGetBundleVersionFromUrl codeqlURL = None"
  shows "(\<forall>dir tool version. CacheDir dir tool version
            \<notin> set (snd (downloadCodeQL E codeqlURL None maybeCliVersion apiDetails variant tempDir [])))
    \<and> (\<forall>r. fst (downloadCodeQL E codeqlURL None maybeCliVersion apiDetails variant tempDir []) = Inr r
          \<longrightarrow> result_toolsVersion r = (case maybeCliVersion of None \<Rightarrow> ''unknown'' | Some v \<Rightarrow> v)
              \<and> (\<exists>codeqlPath. toolcache_extractTar E codeqlPath = Inr (result_codeqlFolder r)))
    \<and> ((\<exists>search. new_URL_search E codeqlURL = Inr search)
          \<and> (\<forall>n. \<exists>info. checkDiskSpace E n = Inr info)
          \<and> (\<forall>u dest a h. \<exists>codeqlPath. toolcache_downloadTool E u dest a h = Inr codeqlPath)
          \<and> (\<forall>codeqlPath. \<exists>codeqlExtracted. toolcache_extractTar E codeqlPath = Inr codeqlExtracted)
        \<longrightarrow> (\<exists>r. fst (downloadCodeQL E codeqlURL None maybeCliVersion apiDetails variant tempDir [])
                   = Inr r))"
proof (intro conjI allI impI)
  fix dir tool version
  from io_spec_trace[OF downloadCodeQL_spec, of E codeqlURL None maybeCliVersion apiDetails variant tempDir "[]"]
  obtain new where
    "snd (downloadCodeQL E codeqlURL None maybeCliVersion apiDetails variant tempDir []) = new"
    and "list_all (\<lambda>ev. case ev of
        DownloadTool u dest a h \<Rightarrow>
          \<exists>search. new_URL_search E codeqlURL = Inr search
            \<and> u = codeqlURL
            \<and> a = authorizationFor E apiDetails codeqlURL search
            \<and> h = [(''User-Agent'', ''CodeQL Action''), (''accept'', ''application/octet-stream'')]
      | CacheDir dir tool version \<Rightarrow> False
      | _ \<Rightarrow> True) new"
    using assms by auto
  then show "CacheDir dir tool version
      \<notin> set (snd (downloadCodeQL E codeqlURL None maybeCliVersion apiDetails variant tempDir []))"
    by (auto simp: list_all_iff)
next
  fix r
  assume "fst (downloadCodeQL E codeqlURL None maybeCliVersion apiDetails variant tempDir []) = Inr r"
  from io_spec_result[OF downloadCodeQL_spec this] assms
  show "result_toolsVersion r = (case maybeCliVersion of None \<Rightarrow> ''unknown'' | Some v \<Rightarrow> v)"
    and "\<exists>codeqlPath. toolcache_extractTar E codeqlPath = Inr (result_codeqlFolder r)"
    by simp_all
next
  assume ok: "(\<exists>search. new_URL_search E codeqlURL = Inr search)
          \<and> (\<forall>n. \<exists>info. checkDiskSpace E n = Inr info)
          \<and> (\<forall>u dest a h. \<exists>codeqlPath. toolcache_downloadTool E u dest a h = Inr codeqlPath)
          \<and> (\<forall>codeqlPath. \<exists>codeqlExtracted. toolcache_extractTar E codeqlPath = Inr codeqlExtracted)"
  then obtain search where search: "new_URL_search E codeqlURL = Inr search" by blast
  have "io_ok (downloadCodeQL E codeqlURL None maybeCliVersion apiDetails variant tempDir)"
    unfolding downloadCodeQL_def Let_def option.case assms
    apply (rule io_ok_bind_lift[OF search])
    apply (intro io_ok_bind_print io_ok_bind_call io_ok_bind_catch io_ok_return)
    using ok apply auto
    done
  then show "\<exists>r. fst (downloadCodeQL E codeqlURL None maybeCliVersion apiDetails variant tempDir [])
                   = Inr r"
    by (simp add: io_ok_def)
qed

theorem downloadCodeQL_without_bundle_version_witness:
  "tryGetBundleVersionFromUrl ''https://example.com/tools.tar.gz'' = None
   \<and> (\<exists>r. fst (downloadCodeQL dotcomRunner ''https://example.com/tools.tar.gz'' None None
                 dotcomApi DOTCOM ''/tmp'' []) = Inr r
          \<and> result_toolsVersion r = ''unknown'')"
proof -
  have h: "tryGetBundleVersionFromUrl ''https://example.com/tools.tar.gz'' = None"
    by (simp add: tryGetBundleVersionFromUrl_def tryGetTagNameFromUrl_def
        matchTagNameInUrlRegex_def matchBundleSegmentAt_def)
  have ok: "(\<exists>search. new_URL_search dotcomRunner ''https://example.com/tools.tar.gz'' = Inr search)
          \<and> (\<forall>n. \<exists>info. checkDiskSpace dotcomRunner n = Inr info)
          \<and> (\<forall>u dest a h. \<exists>codeqlPath. toolcache_downloadTool dotcomRunner u dest a h = Inr codeqlPath)
          \<and> (\<forall>codeqlPath. \<exists>codeqlExtracted.
                toolcache_extractTar dotcomRunner codeqlPath = Inr codeqlExtracted)"
    by (simp add: dotcomRunner_def)
  from downloadCodeQL_without_bundle_version[OF h, of dotcomRunner None dotcomApi DOTCOM "''/tmp''"] ok
  have "\<exists>r. fst (downloadCodeQL dotcomRunner ''https://example.com/tools.tar.gz'' None None
                 dotcomApi DOTCOM ''/tmp'' []) = Inr r
          \<and> result_toolsVersion r = ''unknown''"
    by auto
  with h show ?thesis by simp
qed

text \<open>
  C1 as stated fails: with the CLI version \<open>2.15.0\<close> passed in, and no bundle version
  passed in or readable from the URL, the version of the result is \<open>2.15.0\<close>.
\<close>

theorem downloadCodeQL_known_cli_version_counterexample:
  "tryGetBundleVersionFromUrl ''https://example.com/tools.tar.gz'' = None
   \<and> fst (downloadCodeQL dotcomRunner ''https://example.com/tools.tar.gz'' None (Some ''2.15.0'')
            dotcomApi DOTCOM ''/tmp'' [])
     = Inr \<lparr>result_toolsVersion = ''2.15.0'',
             result_codeqlFolder = ''/tmp/3b241101-e2bb-4255-8caf-4136c566a962-extracted'',
             result_toolsDownloadDurationMs = 1500\<rparr>"
  by code_simp

section \<open>Acquisition pipeline: the version of the cache entry\<close>

text \<open>
  The version of every call of \<open>cacheDir\<close> by \<open>downloadCodeQL\<close>: the call is for the tool
  \<open>CodeQL\<close>, and its version is the CLI version, a dash and the bundle version exactly
  when the CLI version known at that point is digits, a dot, digits, a dot and digits;
  otherwise it is what \<open>convertToSemVer\<close> returns on the bundle version.
\<close>

lemma downloadCodeQL_cacheDir_version:
  "\<forall>dir tool version.
     CacheDir dir tool version
       \<in> set (snd (downloadCodeQL E codeqlURL maybeBundleVersion maybeCliVersion apiDetails variant tempDir []))
     \<longrightarrow> (\<exists>bundleVersion cli.
            (case maybeBundleVersion of None \<Rightarrow> tryGetBundleVersionFromUrl codeqlURL | Some b \<Rightarrow> Some b)
              = Some bundleVersion
            \<and> cli = recoverCliVersion E variant codeqlURL bundleVersion maybeCliVersion
            \<and> tool = ''CodeQL''
            \<and> (if \<exists>x y z. cli = Some (x @ ''.'' @ y @ ''.'' @ z) \<and> x \<noteq> [] \<and> y \<noteq> [] \<and> z \<noteq> []
                    \<and> list_all isAsciiDigit (x @ y @ z)
                then version = the cli @ ''-'' @ bundleVersion
                else convertToSemVer E bundleVersion = Inr version))"
proof (intro allI impI)
  fix dir tool version
  assume mem: "CacheDir dir tool version
       \<in> set (snd (downloadCodeQL E codeqlURL maybeBundleVersion maybeCliVersion apiDetails variant tempDir []))"
  from io_spec_event[OF downloadCodeQL_spec mem]
  obtain bundleVersion where
    bv: "(case maybeBundleVersion of None \<Rightarrow> tryGetBundleVersionFromUrl codeqlURL | Some b \<Rightarrow> Some b)
              = Some bundleVersion"
    and tool: "tool = ''CodeQL''"
    and v: "toolcacheVersionFor E
                 (recoverCliVersion E variant codeqlURL bundleVersion maybeCliVersion) bundleVersion
               = Inr version"
    by auto
  define cli where "cli = recoverCliVersion E variant codeqlURL bundleVersion maybeCliVersion"
  have stable: "(case cli of None \<Rightarrow> False | Some v \<Rightarrow> matchStableVersionRegex v)
      \<longleftrightarrow> (\<exists>x y z. cli = Some (x @ ''.'' @ y @ ''.'' @ z) \<and> x \<noteq> [] \<and> y \<noteq> [] \<and> z \<noteq> []
                    \<and> list_all isAsciiDigit (x @ y @ z))"
    by (cases cli) (simp_all add: matchStableVersionRegex_iff)
  have "if \<exists>x y z. cli = Some (x @ ''.'' @ y @ ''.'' @ z) \<and> x \<noteq> [] \<and> y \<noteq> [] \<and> z \<noteq> []
                    \<and> list_all isAsciiDigit (x @ y @ z)
                then version = the cli @ ''-'' @ bundleVersion
                else convertToSemVer E bundleVersion = Inr version"
    using v unfolding toolcacheVersionFor_def cli_def[symmetric] stable
    by (auto split: if_splits)
  with bv tool cli_def show "\<exists>bundleVersion cli.
            (case maybeBundleVersion of None \<Rightarrow> tryGetBundleVersionFromUrl codeqlURL | Some b \<Rightarrow> Some b)
              = Some bundleVersion
            \<and> cli = recoverCliVersion E variant codeqlURL bundleVersion maybeCliVersion
            \<and> tool = ''CodeQL''
            \<and> (if \<exists>x y z. cli = Some (x @ ''.'' @ y @ ''.'' @ z) \<and> x \<noteq> [] \<and> y \<noteq> [] \<and> z \<noteq> []
                    \<and> list_all isAsciiDigit (x @ y @ z)
                then version = the cli @ ''-'' @ bundleVersion
                else convertToSemVer E bundleVersion = Inr version)"
    by blast
qed


text \<open>
  C4. The claim is that the version of the cache entry is the CLI version, a dash and
  the bundle version when the CLI version is stable, and \<open>0.0.0-<bundleVersion>\<close>
  otherwise, as the comment in \<open>downloadCodeQL\<close> says. The code does the first, and
  misses the second when the bundle version is itself a semantic version: then
  \<open>convertToSemVer\<close> returns the bundle version cleaned, not wrapped. For the tools URL of
  the bundle \<open>v2.15.0-beta.1\<close> the resolver passes the pre-release CLI version
  \<open>2.15.0-beta.1\<close> on, and the bundle is cached as \<open>2.15.0-beta.1\<close>; for a default CLI
  version with build metadata and the tag \<open>codeql-bundle-v2.15.0\<close> the bundle is cached
  as \<open>2.15.0\<close>, the version of a stable release.
\<close>

theorem downloadCodeQL_semver_bundle_version_not_wrapped:
  "getCodeQLSource dotcomRunner
     (Some ''https://github.com/github/codeql-action/releases/download/codeql-bundle-v2.15.0-beta.1/codeql-bundle-linux64.tar.gz'')
     \<lparr>default_cliVersion = ''2.15.0'', default_tagName = ''codeql-bundle-v2.15.0''\<rparr>
     dotcomApi DOTCOM
     = Inr (Download (Some ''v2.15.0-beta.1'') (Some ''2.15.0-beta.1'')
         ''https://github.com/github/codeql-action/releases/download/codeql-bundle-v2.15.0-beta.1/codeql-bundle-linux64.tar.gz''
         ''2.15.0-beta.1'')
   \<and> \<not> matchStableVersionRegex ''2.15.0-beta.1''
   \<and> snd (downloadCodeQL dotcomRunner
       ''https://github.com/github/codeql-action/releases/download/codeql-bundle-v2.15.0-beta.1/codeql-bundle-linux64.tar.gz''
       (Some ''v2.15.0-beta.1'') (Some ''2.15.0-beta.1'') dotcomApi DOTCOM ''/tmp'' [])
     = [DownloadTool
          ''https://github.com/github/codeql-action/releases/download/codeql-bundle-v2.15.0-beta.1/codeql-bundle-linux64.tar.gz''
          ''/tmp/3b241101-e2bb-4255-8caf-4136c566a962'' (Some ''token secret'')
          [(''User-Agent'', ''CodeQL Action''), (''accept'', ''application/octet-stream'')],
        ExtractTar ''/tmp/3b241101-e2bb-4255-8caf-4136c566a962'',
        Del ''/tmp/3b241101-e2bb-4255-8caf-4136c566a962'',
        CacheDir ''/tmp/3b241101-e2bb-4255-8caf-4136c566a962-extracted'' ''CodeQL'' ''2.15.0-beta.1'',
        Del ''/tmp/3b241101-e2bb-4255-8caf-4136c566a962-extracted'']
   \<and> getCodeQLSource dotcomRunner None
       \<lparr>default_cliVersion = ''2.15.0+202311140000'', default_tagName = ''codeql-bundle-v2.15.0''\<rparr>
       dotcomApi DOTCOM
     = Inr (Download (Some ''v2.15.0'') (Some ''2.15.0+202311140000'')
         ''https://github.com/github/codeql-action/releases/download/codeql-bundle-v2.15.0/codeql-bundle-linux64.tar.gz''
         ''2.15.0+202311140000'')
   \<and> \<not> matchStableVersionRegex ''2.15.0+202311140000''
   \<and> snd (downloadCodeQL dotcomRunner
       ''https://github.com/github/codeql-action/releases/download/codeql-bundle-v2.15.0/codeql-bundle-linux64.tar.gz''
       (Some ''v2.15.0'') (Some ''2.15.0+202311140000'') dotcomApi DOTCOM ''/tmp'' [])
     = [DownloadTool
          ''https://github.com/github/codeql-action/releases/download/codeql-bundle-v2.15.0/codeql-bundle-linux64.tar.gz''
          ''/tmp/3b241101-e2bb-4255-8caf-4136c566a962'' (Some ''token secret'')
          [(''User-Agent'', ''CodeQL Action''), (''accept'', ''application/octet-stream'')],
        ExtractTar ''/tmp/3b241101-e2bb-4255-8caf-4136c566a962'',
        Del ''/tmp/3b241101-e2bb-4255-8caf-4136c566a962'',
        CacheDir ''/tmp/3b241101-e2bb-4255-8caf-4136c566a962-extracted'' ''CodeQL'' ''2.15.0'',
        Del ''/tmp/3b241101-e2bb-4255-8caf-4136c566a962-extracted'']"
  by code_simp

section \<open>Acquisition pipeline: the authorization of the download\<close>

text \<open>
  C7 (amended). Every download request of \<open>downloadCodeQL\<close> is for the URL given and
  carries the header \<open>token <auth>\<close> exactly when the URL has no \<open>token\<close> parameter in its
  query and the URL starts with the configured endpoint and a slash; in every other
  case the request carries no authorization. The request is made as soon as the URL
  parses and the first disk probe succeeds.
\<close>

theorem downloadCodeQL_authorization:
  "(\<forall>u dest a h.
       DownloadTool u dest a h
         \<in> set (snd (downloadCodeQL E codeqlURL maybeBundleVersion maybeCliVersion apiDetails variant tempDir []))
       \<longrightarrow> (\<exists>search. new_URL_search E codeqlURL = Inr search
              \<and> u = codeqlURL
              \<and> h = [(''User-Agent'', ''CodeQL Action''), (''accept'', ''application/octet-stream'')]
              \<and> a = (if \<not> searchParams_has E search ''token''
                         \<and> prefix (api_url apiDetails @ ''/'') codeqlURL
                      then Some (''token '' @ api_auth apiDetails) else None)))
   \<and> (\<forall>search info. new_URL_search E codeqlURL = Inr search \<and> checkDiskSpace E 0 = Inr info
       \<longrightarrow> (\<exists>new. snd (downloadCodeQL E codeqlURL maybeBundleVersion maybeCliVersion apiDetails variant tempDir [])
              = DownloadTool codeqlURL (path_join E tempDir (uuidV4 E))
                  (if \<not> searchParams_has E search ''token''
                         \<and> prefix (api_url apiDetails @ ''/'') codeqlURL
                   then Some (''token '' @ api_auth apiDetails) else None)
                  [(''User-Agent'', ''CodeQL Action''), (''accept'', ''application/octet-stream'')]
                # new))"
proof (intro conjI allI impI)
  fix u dest a h
  assume "DownloadTool u dest a h
         \<in> set (snd (downloadCodeQL E codeqlURL maybeBundleVersion maybeCliVersion apiDetails variant tempDir []))"
  from io_spec_event[OF downloadCodeQL_spec this]
  show "\<exists>search. new_URL_search E codeqlURL = Inr search
              \<and> u = codeqlURL
              \<and> h = [(''User-Agent'', ''CodeQL Action''), (''accept'', ''application/octet-stream'')]
              \<and> a = (if \<not> searchParams_has E search ''token''
                         \<and> prefix (api_url apiDetails @ ''/'') codeqlURL
                      then Some (''token '' @ api_auth apiDetails) else None)"
    by (auto simp: authorizationFor_iff)
next
  fix search info
  assume a: "new_URL_search E codeqlURL = Inr search \<and> checkDiskSpace E 0 = Inr info"
  then have search: "new_URL_search E codeqlURL = Inr search"
    and info: "checkDiskSpace E 0 = Inr info" by simp_all
  show "\<exists>new. snd (downloadCodeQL E codeqlURL maybeBundleVersion maybeCliVersion apiDetails variant tempDir [])
              = DownloadTool codeqlURL (path_join E tempDir (uuidV4 E))
                  (if \<not> searchParams_has E search ''token''
                         \<and> prefix (api_url apiDetails @ ''/'') codeqlURL
                   then Some (''token '' @ api_auth apiDetails) else None)
                  [(''User-Agent'', ''CodeQL Action''), (''accept'', ''application/octet-stream'')]
                # new"
    unfolding downloadCodeQL_def Let_def search io_bind_lift_Inr io_bind_print_ok[OF info]
      authorizationFor_iff[symmetric]
    by (rule io_bind_call_first) (intro io_spec_rules; simp)
qed



theorem downloadCodeQL_authorization_witness:
  "(\<exists>new. snd (downloadCodeQL dotcomRunner
        ''https://github.com/github/codeql-action/releases/download/codeql-bundle-20231114/codeql-bundle-linux64.tar.gz''
        None None dotcomApi DOTCOM ''/tmp'' [])
      = DownloadTool
          ''https://github.com/github/codeql-action/releases/download/codeql-bundle-20231114/codeql-bundle-linux64.tar.gz''
          ''/tmp/3b241101-e2bb-4255-8caf-4136c566a962'' (Some ''token secret'')
          [(''User-Agent'', ''CodeQL Action''), (''accept'', ''application/octet-stream'')] # new)
   \<and> (\<exists>new. snd (downloadCodeQL dotcomRunner
        ''https://github.com/github/codeql-action/releases/download/codeql-bundle-20231114/codeql-bundle-linux64.tar.gz''
        None None enterpriseApi GHES ''/tmp'' [])
      = DownloadTool
          ''https://github.com/github/codeql-action/releases/download/codeql-bundle-20231114/codeql-bundle-linux64.tar.gz''
          ''/tmp/3b241101-e2bb-4255-8caf-4136c566a962'' None
          [(''User-Agent'', ''CodeQL Action''), (''accept'', ''application/octet-stream'')] # new)
   \<and> (\<exists>new. snd (downloadCodeQL dotcomRunner
        ''https://ghe.example.com/storage/codeql-bundle-20231114/codeql-bundle-linux64.tar.gz?token=abc''
        None None enterpriseApi GHES ''/tmp'' [])
      = DownloadTool
          ''https://ghe.example.com/storage/codeql-bundle-20231114/codeql-bundle-linux64.tar.gz?token=abc''
          ''/tmp/3b241101-e2bb-4255-8caf-4136c566a962'' None
          [(''User-Agent'', ''CodeQL Action''), (''accept'', ''application/octet-stream'')] # new)"
proof -
  let ?public = "''https://github.com/github/codeql-action/releases/download/codeql-bundle-20231114/codeql-bundle-linux64.tar.gz''"
  let ?signed = "''https://ghe.example.com/storage/codeql-bundle-20231114/codeql-bundle-linux64.tar.gz?token=abc''"
  have p: "new_URL_search dotcomRunner ?public = Inr []
           \<and> checkDiskSpace dotcomRunner 0 = Inr \<lparr>free = 20000000000, size = 80000000000\<rparr>"
    by (simp add: dotcomRunner_def)
  have s: "new_URL_search dotcomRunner ?signed = Inr ''?token=abc''
           \<and> checkDiskSpace dotcomRunner 0 = Inr \<lparr>free = 20000000000, size = 80000000000\<rparr>"
    by (simp add: dotcomRunner_def)
  have has: "\<not> searchParams_has dotcomRunner [] ''token''"
    "searchParams_has dotcomRunner ''?token=abc'' ''token''"
    by (simp_all add: dotcomRunner_def)
  have path: "path_join dotcomRunner ''/tmp'' (uuidV4 dotcomRunner)
                = ''/tmp/3b241101-e2bb-4255-8caf-4136c566a962''"
    by (simp add: dotcomRunner_def)
  from p downloadCodeQL_authorization[of dotcomRunner ?public None None dotcomApi DOTCOM "''/tmp''"]
  have 1: "\<exists>new. snd (downloadCodeQL dotcomRunner ?public None None dotcomApi DOTCOM ''/tmp'' [])
      = DownloadTool ?public ''/tmp/3b241101-e2bb-4255-8caf-4136c566a962'' (Some ''token secret'')
          [(''User-Agent'', ''CodeQL Action''), (''accept'', ''application/octet-stream'')] # new"
    using has(1) by (simp add: path dotcomApi_def)
  from p downloadCodeQL_authorization[of dotcomRunner ?public None None enterpriseApi GHES "''/tmp''"]
  have 2: "\<exists>new. snd (downloadCodeQL dotcomRunner ?public None None enterpriseApi GHES ''/tmp'' [])
      = DownloadTool ?public ''/tmp/3b241101-e2bb-4255-8caf-4136c566a962'' None
          [(''User-Agent'', ''CodeQL Action''), (''accept'', ''application/octet-stream'')] # new"
    using has(1) by (simp add: path enterpriseApi_def)
  from s downloadCodeQL_authorization[of dotcomRunner ?signed None None enterpriseApi GHES "''/tmp''"]
  have 3: "\<exists>new. snd (downloadCodeQL dotcomRunner ?signed None None enterpriseApi GHES ''/tmp'' [])
      = DownloadTool ?signed ''/tmp/3b241101-e2bb-4255-8caf-4136c566a962'' None
          [(''User-Agent'', ''CodeQL Action''), (''accept'', ''application/octet-stream'')] # new"
    using has(2) by (simp add: path enterpriseApi_def)
  from 1 2 3 show ?thesis by blast
qed

text \<open>
  C7 as stated fails: for the endpoint \<open>https://github.com\<close> and a download from the same
  host over \<open>http\<close>, the hosts are equal and the URL holds no token, and the request
  carries no authorization.
\<close>

theorem downloadCodeQL_same_host_other_scheme_counterexample:
  "hostOfUrl ''http://github.com/github/codeql-action/releases/download/codeql-bundle-20231114/codeql-bundle-linux64.tar.gz''
     = hostOfUrl (api_url dotcomApi)
   \<and> new_URL_search dotcomRunner
       ''http://github.com/github/codeql-action/releases/download/codeql-bundle-20231114/codeql-bundle-linux64.tar.gz''
     = Inr []
   \<and> \<not> searchParams_has dotcomRunner [] ''token''
   \<and> DownloadTool
       ''http://github.com/github/codeql-action/releases/download/codeql-bundle-20231114/codeql-bundle-linux64.tar.gz''
       ''/tmp/3b241101-e2bb-4255-8caf-4136c566a962'' None
       [(''User-Agent'', ''CodeQL Action''), (''accept'', ''application/octet-stream'')]
     \<in> set (snd (downloadCodeQL dotcomRunner
         ''http://github.com/github/codeql-action/releases/download/codeql-bundle-20231114/codeql-bundle-linux64.tar.gz''
         None None dotcomApi DOTCOM ''/tmp'' []))"
  by code_simp

end
